theory Spec2Isabelle
  imports Main
begin

section \<open>CfgSyncPlugin: the configuration-synchronisation engine\<close>

text \<open>
  A shallow embedding of \<^verbatim>\<open>CfgSyncPlugin.ts\<close>. The closure variables of the plugin
  (\<^verbatim>\<open>_mainConfig\<close>, \<^verbatim>\<open>_isAutoSync\<close>, ...) are the fields of the record \<open>plugin\<close>; what
  the plugin does to its collaborators (the event bus, the timer, the transport, the host
  configuration) is logged in the record \<open>world\<close>; what the collaborators answer is fixed
  by the record \<open>host\<close>. A function of the source that mutates the closure variables takes
  and returns the pair of plugin and world.
\<close>

subsection \<open>JavaScript values\<close>

datatype jsval =
    JUndefined
  | JNull
  | JBool bool
  | JNum int
  | JStr string
  | JArr "jsval list"
  | JObj "(string \<times> jsval) list"

text \<open>Truthiness, as \<^verbatim>\<open>if (v)\<close>, \<^verbatim>\<open>!!v\<close> and \<^verbatim>\<open>a && b\<close> read a value.\<close>

fun truthy :: "jsval \<Rightarrow> bool" where
  "truthy JUndefined = False"
| "truthy JNull = False"
| "truthy (JBool b) = b"
| "truthy (JNum n) = (n \<noteq> 0)"
| "truthy (JStr s) = (s \<noteq> [])"
| "truthy (JArr xs) = True"
| "truthy (JObj kvs) = True"

text \<open>
  Property access \<^verbatim>\<open>v.k\<close> for a name \<open>k\<close> that is not a built-in member: the own
  property of an object, \<^verbatim>\<open>undefined\<close> on everything else. (On \<^verbatim>\<open>null\<close> and
  \<^verbatim>\<open>undefined\<close> the access throws; every access of the source is guarded by \<^verbatim>\<open>&&\<close>.)
\<close>

fun getProp :: "jsval \<Rightarrow> string \<Rightarrow> jsval" where
  "getProp (JObj kvs) k = (case map_of kvs k of Some v \<Rightarrow> v | None \<Rightarrow> JUndefined)"
| "getProp v k = JUndefined"

text \<open>\<^verbatim>\<open>a && b\<close> returns \<open>a\<close> when it is falsy, \<open>b\<close> otherwise.\<close>

definition js_and :: "jsval \<Rightarrow> jsval \<Rightarrow> jsval" where
  "js_and a b = (if truthy a then b else a)"

text \<open>A string that may be \<^verbatim>\<open>null\<close>/\<^verbatim>\<open>undefined\<close> is truthy when present and non-empty.\<close>

fun truthy_str :: "string option \<Rightarrow> bool" where
  "truthy_str None = False"
| "truthy_str (Some s) = (s \<noteq> [])"

text \<open>A boolean that may be \<^verbatim>\<open>null\<close>/\<^verbatim>\<open>undefined\<close> is truthy when it is \<^verbatim>\<open>true\<close>.\<close>

fun truthy_flag :: "bool option \<Rightarrow> bool" where
  "truthy_flag None = False"
| "truthy_flag (Some b) = b"

datatype js_error = TypeError | SyntaxError | Thrown jsval

text \<open>
  The outcome of a call that may throw: the state it returned with, or the error and the
  state at the moment of the throw (assignments made before a throw persist).
\<close>

datatype 's outcome = Returned 's | Threw js_error 's

fun final :: "'s outcome \<Rightarrow> 's" where
  "final (Returned s) = s"
| "final (Threw e s) = s"

fun threw :: "'s outcome \<Rightarrow> bool" where
  "threw (Returned s) = False"
| "threw (Threw e s) = True"

subsection \<open>Configuration of the extension\<close>

text \<open>
  \<^verbatim>\<open>NonOverrideCfg\<close>: configuration key names mapped to the flag "protect this key"
  (\<^verbatim>\<open>{instrumentationKey: true, connectionString: true, endpointUrl: true}\<close>).
\<close>

type_synonym NonOverrideCfg = "(string \<times> bool) list"

definition defaultNonOverrideCfg :: NonOverrideCfg where
  "defaultNonOverrideCfg =
     [(''instrumentationKey'', True), (''connectionString'', True), (''endpointUrl'', True)]"

definition FETCH_SPAN :: nat where
  "FETCH_SPAN = 1800000"

definition evtName_default :: string where
  "evtName_default = ''cfgsync''"

text \<open>
  What an override fetch function does when the plugin calls it with
  \<^verbatim>\<open>(url, oncomplete, isAutoSync)\<close>: the calls of \<^verbatim>\<open>oncomplete(status, response, isAutoSync)\<close>
  it makes before it returns, and the error it throws, if any.
\<close>

type_synonym oncomplete_call = "int \<times> string option \<times> bool option"

type_synonym override_fetch = "string option \<Rightarrow> bool option \<Rightarrow> oncomplete_call list \<times> js_error option"

text \<open>An override sync function \<^verbatim>\<open>(config, customDetails) => boolean\<close> returns or throws.\<close>

type_synonym override_sync = "jsval \<Rightarrow> jsval \<Rightarrow> js_error + bool"

text \<open>A receive callback \<^verbatim>\<open>(event: ICfgSyncEvent) => void\<close> returns or throws.\<close>

type_synonym receive_callback = "jsval \<Rightarrow> js_error option"

text \<open>
  \<^verbatim>\<open>ICfgSyncConfig\<close> as \<^verbatim>\<open>ctx.getExtCfg(identifier, _defaultConfig)\<close> resolves it; an
  option is \<open>None\<close> when the resolved value is \<^verbatim>\<open>undefined\<close> or \<^verbatim>\<open>null\<close>.
\<close>

record ICfgSyncConfig =
  disableAutoSync :: bool
  customEvtName :: "string option"
  ext_cfgUrl :: "string option"
  ext_receiveChanges :: bool
  ext_overrideSyncFn :: "override_sync option"
  ext_overrideFetchFn :: "override_fetch option"
  ext_onCfgChangeReceive :: "receive_callback option"
  scheduleFetchTimeout :: "nat option"
  ext_nonOverrideConfigs :: "NonOverrideCfg option"

definition defaultConfig :: ICfgSyncConfig where
  "defaultConfig =
     \<lparr> disableAutoSync = False, customEvtName = None, ext_cfgUrl = None,
       ext_receiveChanges = False, ext_overrideSyncFn = None, ext_overrideFetchFn = None,
       ext_onCfgChangeReceive = None, scheduleFetchTimeout = Some FETCH_SPAN,
       ext_nonOverrideConfigs = Some defaultNonOverrideCfg \<rparr>"

subsection \<open>The plugin, its host and the world around it\<close>

text \<open>\<^verbatim>\<open>SendGetFunction\<close>: the value of \<^verbatim>\<open>_fetchFn\<close>.\<close>

datatype SendGetFunction = FetchSender | XhrSender | OverrideFetch override_fetch

record plugin =
  extensionConfig :: "ICfgSyncConfig option"
  mainConfig :: jsval
  isAutoSync :: "bool option"
  evtName :: "string option"
  evtNamespace :: "string option"
  cfgUrl :: "string option"
  timeoutHandle :: "nat option"
  receiveChanges :: "bool option"
  fetchSpan :: "nat option"
  onCfgChangeReceive :: "receive_callback option"
  nonOverrideConfigs :: "NonOverrideCfg option"
  fetchFn :: "SendGetFunction option"
  overrideFetchFn :: "override_fetch option"
  overrideSyncFn :: "override_sync option"

datatype transport = ViaFetch | ViaXhr

text \<open>
  The host: \<^verbatim>\<open>getGlobal()\<close>, \<^verbatim>\<open>isFetchSupported()\<close>, \<^verbatim>\<open>isXhrSupported()\<close>,
  \<^verbatim>\<open>global.fetch\<close>, \<^verbatim>\<open>getJSON()\<close> with its \<^verbatim>\<open>parse\<close>, whether building and sending a
  request over a transport for a url throws, what \<^verbatim>\<open>sendCustomEvent\<close> answers and whether
  \<^verbatim>\<open>core.updateCfg\<close> throws.
\<close>

record host =
  hasGlobal :: bool
  fetchSupported :: bool
  xhrSupported :: bool
  globalFetch :: bool
  hostJSON :: "(string \<Rightarrow> js_error + jsval) option"
  requestThrows :: "transport \<Rightarrow> string option \<Rightarrow> bool"
  emitAnswer :: "string option \<Rightarrow> jsval \<Rightarrow> jsval \<Rightarrow> js_error + bool"
  updateCfgThrows :: "jsval \<Rightarrow> js_error option"

text \<open>
  The world: the registrations \<^verbatim>\<open>eventOn\<close> made and \<^verbatim>\<open>eventOff\<close> has not removed (event
  name and namespace), the events sent on the bus (name, cfg, customDetails), the handles
  of the armed timers with their delay, the counter that names the next handle, the
  requests in flight (transport, url and the \<^verbatim>\<open>isAutoSync\<close> captured by the callback), the
  configurations pushed to \<^verbatim>\<open>core.updateCfg\<close> and the arguments passed to the receive
  callback.
\<close>

record world =
  listeners :: "(string option \<times> string option) list"
  emitted :: "(string option \<times> jsval \<times> jsval) list"
  timers :: "(nat \<times> nat) list"
  nextHandle :: nat
  requests :: "(transport \<times> string option \<times> bool option) list"
  hostUpdates :: "jsval list"
  received :: "jsval list"

type_synonym sys = "plugin \<times> world"

subsection \<open>Resetting, unsubscribing, broadcasting\<close>

text \<open>\<^verbatim>\<open>_initDefaults\<close> resets twelve variables; \<^verbatim>\<open>_extensionConfig\<close> and \<^verbatim>\<open>_fetchFn\<close> are not among them.\<close>

definition initDefaults :: "plugin \<Rightarrow> plugin" where
  "initDefaults p =
     p\<lparr> mainConfig := JNull, isAutoSync := None, evtName := None, evtNamespace := None,
        cfgUrl := None, receiveChanges := None, nonOverrideConfigs := None,
        timeoutHandle := None, fetchSpan := None, overrideFetchFn := None,
        overrideSyncFn := None, onCfgChangeReceive := None \<rparr>"

text \<open>
  Modelled from the spec: \<^verbatim>\<open>eventOff\<close> of the core package is not among the sources.
  Section 6 of the specification: the bus's \<open>off\<close> removes the registrations made under
  the given namespace and leaves every other one. The plugin calls
  \<^verbatim>\<open>eventOff(global, null, null, _evtNamespace)\<close>.
\<close>

definition eventOff :: "string option \<Rightarrow> world \<Rightarrow> world" where
  "eventOff ns w = w\<lparr> listeners := filter (\<lambda>r. snd r \<noteq> ns) (listeners w) \<rparr>"

text \<open>\<^verbatim>\<open>_eventOff\<close>: inside \<^verbatim>\<open>try\<close>, and only when there is a global object.\<close>

definition eventOff_internal :: "host \<Rightarrow> plugin \<Rightarrow> world \<Rightarrow> world" where
  "eventOff_internal h p w = (if hasGlobal h then eventOff (evtNamespace p) w else w)"

text \<open>
  Modelled from the spec: \<^verbatim>\<open>sendCustomEvent\<close> of the core package is not among the sources.
  Sections 3, 4.1 and 6 of the specification: the bus's \<open>emit\<close> sends the event with the
  name and the detail \<^verbatim>\<open>{cfg, customDetails}\<close> and answers a boolean, or throws. The world
  logs the events the bus has taken.
\<close>

definition sendCustomEvent :: "host \<Rightarrow> string option \<Rightarrow> jsval \<Rightarrow> jsval \<Rightarrow> world \<Rightarrow> js_error + (bool \<times> world)" where
  "sendCustomEvent h name cfg customDetails w =
     (case emitAnswer h name cfg customDetails of
        Inl e \<Rightarrow> Inl e
      | Inr b \<Rightarrow> Inr (b, w\<lparr> emitted := emitted w @ [(name, cfg, customDetails)] \<rparr>))"

text \<open>\<^verbatim>\<open>_sendCfgsyncEvents\<close>: the whole body is inside \<^verbatim>\<open>try\<close>; after a catch it returns false.\<close>

definition sendCfgsyncEvents :: "host \<Rightarrow> jsval \<Rightarrow> sys \<Rightarrow> bool \<times> sys" where
  "sendCfgsyncEvents h customDetails s =
     (case s of (p, w) \<Rightarrow>
        (case overrideSyncFn p of
           Some f \<Rightarrow>
             (case f (mainConfig p) customDetails of
                Inr b \<Rightarrow> (b, (p, w))
              | Inl e \<Rightarrow> (False, (p, w)))
         | None \<Rightarrow>
             (case sendCustomEvent h (evtName p) (mainConfig p) customDetails w of
                Inr (b, w') \<Rightarrow> (b, (p, w'))
              | Inl e \<Rightarrow> (False, (p, w)))))"

text \<open>\<^verbatim>\<open>_setCfg(config, isAutoSync)\<close>.\<close>

definition setCfg_internal :: "host \<Rightarrow> jsval \<Rightarrow> bool option \<Rightarrow> sys \<Rightarrow> bool \<times> sys" where
  "setCfg_internal h config autoSync s =
     (case s of (p, w) \<Rightarrow>
        if truthy config then
          (let p' = p\<lparr> mainConfig := config \<rparr> in
           if truthy_flag autoSync then sendCfgsyncEvents h JUndefined (p', w)
           else (False, (p', w)))
        else (False, (p, w)))"

text \<open>The public \<^verbatim>\<open>setCfg(config)\<close> and \<^verbatim>\<open>sync(customDetails)\<close>.\<close>

definition setCfg :: "host \<Rightarrow> jsval \<Rightarrow> sys \<Rightarrow> bool \<times> sys" where
  "setCfg h config s = setCfg_internal h config (isAutoSync (fst s)) s"

definition sync :: "host \<Rightarrow> jsval \<Rightarrow> sys \<Rightarrow> bool \<times> sys" where
  "sync h customDetails s = sendCfgsyncEvents h customDetails s"

subsection \<open>Subscribing\<close>

text \<open>
  Modelled from the spec: \<^verbatim>\<open>eventOn\<close> of the core package is not among the sources.
  Section 6 of the specification: the bus's \<open>on\<close> registers the handler under the event
  name and the namespace. The plugin calls
  \<^verbatim>\<open>eventOn(global, _evtName, handler, _evtNamespace, true)\<close>.
\<close>

definition eventOn :: "string option \<Rightarrow> string option \<Rightarrow> world \<Rightarrow> world" where
  "eventOn name ns w = w\<lparr> listeners := listeners w @ [(name, ns)] \<rparr>"

text \<open>\<^verbatim>\<open>_addEventListener\<close>: subscribes only in receive mode and only when there is a global object.\<close>

definition addEventListener :: "host \<Rightarrow> plugin \<Rightarrow> world \<Rightarrow> world" where
  "addEventListener h p w =
     (if truthy_flag (receiveChanges p) then
        (if hasGlobal h then eventOn (evtName p) (evtNamespace p) w else w)
      else w)"

text \<open>
  \<^verbatim>\<open>_updateEventListenerName(name)\<close>. \<^verbatim>\<open>_eventOff\<close> and \<^verbatim>\<open>_addEventListener\<close> catch what
  they call, so nothing reaches the \<^verbatim>\<open>catch\<close> of this function and its \<^verbatim>\<open>return false\<close>.
\<close>

definition updateEventListenerName_internal :: "host \<Rightarrow> string option \<Rightarrow> sys \<Rightarrow> bool \<times> sys" where
  "updateEventListenerName_internal h name s =
     (case s of (p, w) \<Rightarrow>
        (let w1 = eventOff_internal h p w in
         if truthy_str name then
           (let p' = p\<lparr> evtName := name \<rparr> in (True, (p', addEventListener h p' w1)))
         else (True, (p, w1))))"

text \<open>The public \<^verbatim>\<open>updateEventListenerName(eventName)\<close>.\<close>

definition updateEventListenerName :: "host \<Rightarrow> string option \<Rightarrow> sys \<Rightarrow> bool \<times> sys" where
  "updateEventListenerName h eventName s = updateEventListenerName_internal h eventName s"

subsection \<open>Selective merge\<close>

definition protected :: "NonOverrideCfg \<Rightarrow> string \<Rightarrow> bool" where
  "protected rules k = (map_of rules k = Some True)"

text \<open>
  Modelled from the spec: \<^verbatim>\<open>replaceByNonOverrideCfg\<close> of \<^verbatim>\<open>CfgSyncHelperFuncs\<close> is not among
  the sources. Section 4.2 of the specification: for each key of \<open>cfg\<close> at the current
  level, a key the rules mark protected is omitted from the output; a value that is a
  nested mapping is sanitized at \<open>level + 1\<close> when \<open>level < maxLevel\<close>, and copied as it is
  beyond; the result is \<^verbatim>\<open>null\<close> when the rules or \<open>cfg\<close> are absent.
\<close>

fun sanitize :: "NonOverrideCfg \<Rightarrow> nat \<Rightarrow> nat \<Rightarrow> jsval \<Rightarrow> jsval"
  and sanitize_props :: "NonOverrideCfg \<Rightarrow> nat \<Rightarrow> nat \<Rightarrow> (string \<times> jsval) list \<Rightarrow> (string \<times> jsval) list" where
  "sanitize rules level maxLevel (JObj kvs) = JObj (sanitize_props rules level maxLevel kvs)"
| "sanitize rules level maxLevel JUndefined = JUndefined"
| "sanitize rules level maxLevel JNull = JNull"
| "sanitize rules level maxLevel (JBool b) = JBool b"
| "sanitize rules level maxLevel (JNum n) = JNum n"
| "sanitize rules level maxLevel (JStr s) = JStr s"
| "sanitize rules level maxLevel (JArr xs) = JArr xs"
| "sanitize_props rules level maxLevel [] = []"
| "sanitize_props rules level maxLevel ((k, v) # kvs) =
     (if protected rules k then sanitize_props rules level maxLevel kvs
      else (k, if level < maxLevel then sanitize rules (Suc level) maxLevel v else v)
             # sanitize_props rules level maxLevel kvs)"

definition replaceByNonOverrideCfg :: "jsval \<Rightarrow> NonOverrideCfg option \<Rightarrow> nat \<Rightarrow> nat \<Rightarrow> jsval" where
  "replaceByNonOverrideCfg cfg rules level maxLevel =
     (case rules of
        None \<Rightarrow> JNull
      | Some r \<Rightarrow> if cfg = JNull \<or> cfg = JUndefined then JNull else sanitize r level maxLevel cfg)"

text \<open>
  \<^verbatim>\<open>_replaceTartgetByKeys(cfg)\<close>: \<^verbatim>\<open>null\<close> unless both \<^verbatim>\<open>_nonOverrideConfigs\<close> and \<open>cfg\<close>
  are truthy; the helper is called at level 1 with 5 levels. The helper, as the
  specification has it, swallows its own errors, so the \<^verbatim>\<open>catch\<close> around the call is
  never entered.
\<close>

definition replaceTartgetByKeys :: "plugin \<Rightarrow> jsval \<Rightarrow> jsval" where
  "replaceTartgetByKeys p cfg =
     (if \<not> Option.is_none (nonOverrideConfigs p) \<and> truthy cfg then
        replaceByNonOverrideCfg cfg (nonOverrideConfigs p) 1 5
      else JNull)"

subsection \<open>Receiving\<close>

text \<open>\<^verbatim>\<open>_self.core.updateCfg(newCfg)\<close>: the host takes the update, or throws.\<close>

definition core_updateCfg :: "host \<Rightarrow> jsval \<Rightarrow> sys \<Rightarrow> sys outcome" where
  "core_updateCfg h newCfg s =
     (case s of (p, w) \<Rightarrow>
        (case updateCfgThrows h newCfg of
           Some e \<Rightarrow> Threw e (p, w)
         | None \<Rightarrow> Returned (p, w\<lparr> hostUpdates := hostUpdates w @ [newCfg] \<rparr>)))"

text \<open>
  The handler that \<^verbatim>\<open>_addEventListener\<close> registers. It has no \<^verbatim>\<open>try\<close> of its own: what the
  receive callback or \<^verbatim>\<open>core.updateCfg\<close> throws leaves the handler.
\<close>

definition cfgEventHandler :: "host \<Rightarrow> jsval \<Rightarrow> sys \<Rightarrow> sys outcome" where
  "cfgEventHandler h event s =
     (case s of (p, w) \<Rightarrow>
        (let cfgEvent = js_and event (getProp event ''detail'') in
         if \<not> Option.is_none (onCfgChangeReceive p) \<and> truthy cfgEvent then
           (case onCfgChangeReceive p of
              Some f \<Rightarrow>
                (case f cfgEvent of
                   Some e \<Rightarrow> Threw e (p, w\<lparr> received := received w @ [cfgEvent] \<rparr>)
                 | None \<Rightarrow> Returned (p, w\<lparr> received := received w @ [cfgEvent] \<rparr>))
            | None \<Rightarrow> Returned (p, w))
         else
           (let cfg = js_and cfgEvent (getProp cfgEvent ''cfg'');
                newCfg = (if truthy cfg then replaceTartgetByKeys p cfg else cfg)
            in if truthy newCfg then core_updateCfg h newCfg (p, w) else Returned (p, w))))"

subsection \<open>Transport\<close>

text \<open>\<^verbatim>\<open>_getFetchFnInterface\<close>: the override, else fetch, else XHR, else nothing.\<close>

definition getFetchFnInterface :: "host \<Rightarrow> plugin \<Rightarrow> SendGetFunction option" where
  "getFetchFnInterface h p =
     (case overrideFetchFn p of
        Some f \<Rightarrow> Some (OverrideFetch f)
      | None \<Rightarrow>
          if fetchSupported h then Some FetchSender
          else if xhrSupported h then Some XhrSender
          else None)"

text \<open>
  The callback contract \<^verbatim>\<open>OnCompleteCallback\<close>: a callback acts on a state and may throw.
  \<^verbatim>\<open>_doOnComplete\<close> calls it inside \<^verbatim>\<open>try\<close>.
\<close>

type_synonym 's OnCompleteCallback = "int \<Rightarrow> string option \<Rightarrow> bool option \<Rightarrow> 's \<Rightarrow> 's outcome"

definition doOnComplete :: "'s OnCompleteCallback \<Rightarrow> int \<Rightarrow> string option \<Rightarrow> bool option \<Rightarrow> 's \<Rightarrow> 's" where
  "doOnComplete oncomplete status response autoSync s = final (oncomplete status response autoSync s)"

text \<open>
  A promise settles: \<^verbatim>\<open>doAwaitResponse(promise, cb)\<close> calls \<open>cb\<close> with the result in both
  cases, \<^verbatim>\<open>result.rejected\<close> telling them apart; \<^verbatim>\<open>result.value\<close> is \<^verbatim>\<open>undefined\<close> after a
  rejection.
\<close>

datatype 'a await = Resolved 'a | Rejected jsval

record response =
  resp_ok :: bool
  resp_status :: int
  resp_text :: "string await"

text \<open>
  \<^verbatim>\<open>_fetchSender\<close>, the synchronous part: with a url and a \<^verbatim>\<open>global.fetch\<close> function the
  request is built and sent inside \<^verbatim>\<open>try\<close>.
\<close>

definition fetchSender :: "host \<Rightarrow> string option \<Rightarrow> bool option \<Rightarrow> world \<Rightarrow> world" where
  "fetchSender h url autoSync w =
     (if truthy_str url \<and> hasGlobal h \<and> globalFetch h then
        (if requestThrows h ViaFetch url then w
         else w\<lparr> requests := requests w @ [(ViaFetch, url, autoSync)] \<rparr>)
      else w)"

text \<open>
  \<^verbatim>\<open>_fetchSender\<close>, the callbacks: the outer one runs when the promise of \<^verbatim>\<open>fetch\<close> settles
  and tests \<^verbatim>\<open>result.rejected\<close> and \<^verbatim>\<open>response.ok\<close>; the inner one runs when the promise of
  \<^verbatim>\<open>response.text()\<close> settles and passes \<^verbatim>\<open>res.value\<close> on without a test.
\<close>

definition fetchSender_settled :: "'s OnCompleteCallback \<Rightarrow> bool option \<Rightarrow> response await \<Rightarrow> 's \<Rightarrow> 's" where
  "fetchSender_settled oncomplete autoSync result s =
     (case result of
        Rejected reason \<Rightarrow> s
      | Resolved response \<Rightarrow>
          if resp_ok response then
            (case resp_text response of
               Resolved t \<Rightarrow> doOnComplete oncomplete (resp_status response) (Some t) autoSync s
             | Rejected reason \<Rightarrow> doOnComplete oncomplete (resp_status response) None autoSync s)
          else s)"

text \<open>\<^verbatim>\<open>_xhrSender\<close>, the synchronous part: everything is inside \<^verbatim>\<open>try\<close>.\<close>

definition xhrSender :: "host \<Rightarrow> string option \<Rightarrow> bool option \<Rightarrow> world \<Rightarrow> world" where
  "xhrSender h url autoSync w =
     (if requestThrows h ViaXhr url then w
      else w\<lparr> requests := requests w @ [(ViaXhr, url, autoSync)] \<rparr>)"

record xhr =
  readyState :: nat
  xhr_status :: int
  responseText :: string

definition XHR_DONE :: nat where
  "XHR_DONE = 4"

text \<open>\<^verbatim>\<open>_xhrSender\<close>, the \<^verbatim>\<open>onreadystatechange\<close> handler.\<close>

definition xhrSender_onreadystatechange :: "'s OnCompleteCallback \<Rightarrow> bool option \<Rightarrow> xhr \<Rightarrow> 's \<Rightarrow> 's" where
  "xhrSender_onreadystatechange oncomplete autoSync x s =
     (if readyState x = XHR_DONE then
        doOnComplete oncomplete (xhr_status x) (Some (responseText x)) autoSync s
      else s)"

text \<open>\<^verbatim>\<open>_onFetchComplete(status, response, isAutoSync)\<close>.\<close>

definition onFetchComplete :: "host \<Rightarrow> sys OnCompleteCallback" where
  "onFetchComplete h status response autoSync s =
     (if 200 \<le> status \<and> status < 400 \<and> truthy_str response then
        (case hostJSON h of
           None \<Rightarrow> Returned s
         | Some parse \<Rightarrow>
             (case response of
                None \<Rightarrow> Returned s
              | Some body \<Rightarrow>
                  (case parse body of
                     Inl e \<Rightarrow> Returned s
                   | Inr cfg \<Rightarrow>
                       if truthy cfg then Returned (snd (setCfg_internal h cfg autoSync s))
                       else Returned s)))
      else Returned s)"

text \<open>
  A call \<^verbatim>\<open>fn(url, _onFetchComplete, isAutoSync)\<close> of a \<^verbatim>\<open>SendGetFunction\<close>. An override
  calls \<^verbatim>\<open>_onFetchComplete\<close> as it likes and may throw.
\<close>

definition callFetchFn :: "host \<Rightarrow> SendGetFunction \<Rightarrow> string option \<Rightarrow> bool option \<Rightarrow> sys \<Rightarrow> sys outcome" where
  "callFetchFn h fn url autoSync s =
     (case fn of
        FetchSender \<Rightarrow> Returned (fst s, fetchSender h url autoSync (snd s))
      | XhrSender \<Rightarrow> Returned (fst s, xhrSender h url autoSync (snd s))
      | OverrideFetch f \<Rightarrow>
          (case f url autoSync of (calls, thrown) \<Rightarrow>
             (let s' = fold (\<lambda>c. case c of (st, r, a) \<Rightarrow> \<lambda>x. final (onFetchComplete h st r a x)) calls s
              in case thrown of None \<Rightarrow> Returned s' | Some e \<Rightarrow> Threw e s')))"

subsection \<open>Polling\<close>

fun truthy_num :: "nat option \<Rightarrow> bool" where
  "truthy_num None = False"
| "truthy_num (Some n) = (n \<noteq> 0)"

text \<open>
  \<^verbatim>\<open>scheduleTimeout(callback, _fetchSpan)\<close> arms a one-shot timer and returns its handle;
  \<^verbatim>\<open>handle.cancel()\<close> disarms it.
\<close>

definition scheduleTimeout :: "nat \<Rightarrow> world \<Rightarrow> nat \<times> world" where
  "scheduleTimeout delay w =
     (nextHandle w, w\<lparr> timers := timers w @ [(nextHandle w, delay)], nextHandle := Suc (nextHandle w) \<rparr>)"

definition cancel :: "nat \<Rightarrow> world \<Rightarrow> world" where
  "cancel t w = w\<lparr> timers := filter (\<lambda>r. fst r \<noteq> t) (timers w) \<rparr>"

text \<open>\<^verbatim>\<open>_setupTimer\<close>: arms a timer when none is held and \<^verbatim>\<open>_fetchSpan\<close> is truthy.\<close>

definition setupTimer :: "sys \<Rightarrow> sys" where
  "setupTimer s =
     (case s of (p, w) \<Rightarrow>
        if Option.is_none (timeoutHandle p) \<and> truthy_num (fetchSpan p) then
          (case fetchSpan p of
             Some delay \<Rightarrow>
               (case scheduleTimeout delay w of (t, w') \<Rightarrow> (p\<lparr> timeoutHandle := Some t \<rparr>, w'))
           | None \<Rightarrow> (p, w))
        else (p, w))"

text \<open>
  The callback \<^verbatim>\<open>_setupTimer\<close> schedules: it clears the handle, calls \<^verbatim>\<open>_fetchFn\<close> without a
  test and arms the next timer. Calling \<^verbatim>\<open>_fetchFn\<close> when it holds no function throws a
  \<^verbatim>\<open>TypeError\<close>.
\<close>

definition timerCallback :: "host \<Rightarrow> sys \<Rightarrow> sys outcome" where
  "timerCallback h s =
     (case s of (p, w) \<Rightarrow>
        (let p1 = p\<lparr> timeoutHandle := None \<rparr> in
         case fetchFn p1 of
           None \<Rightarrow> Threw TypeError (p1, w)
         | Some fn \<Rightarrow>
             (case callFetchFn h fn (cfgUrl p1) (isAutoSync p1) (p1, w) of
                Threw e s' \<Rightarrow> Threw e s'
              | Returned s' \<Rightarrow> Returned (setupTimer s'))))"

text \<open>\<^verbatim>\<open>_clearScheduledTimer\<close>.\<close>

definition clearScheduledTimer :: "sys \<Rightarrow> sys" where
  "clearScheduledTimer s =
     (case s of (p, w) \<Rightarrow>
        (p\<lparr> timeoutHandle := None \<rparr>,
         case timeoutHandle p of None \<Rightarrow> w | Some t \<Rightarrow> cancel t w))"

subsection \<open>Life cycle\<close>

text \<open>
  The callback given to \<^verbatim>\<open>onConfigChange\<close>, run with the host configuration and the
  extension configuration resolved from it. Its four blocks, in the order of the source:
  the flags set when they are null or undefined; the event name, where \<^verbatim>\<open>a || b\<close> picks
  the default name when the custom name is falsy; the url set when it is null or
  undefined; the host configuration taken as the snapshot, and sent when auto-sync is on,
  as long as there is no url.
\<close>

definition latchFlags :: "ICfgSyncConfig \<Rightarrow> plugin \<Rightarrow> plugin" where
  "latchFlags ext p =
     (let p2 = (if Option.is_none (isAutoSync p) then p\<lparr> isAutoSync := Some (\<not> disableAutoSync ext) \<rparr> else p)
      in if Option.is_none (receiveChanges p2) then p2\<lparr> receiveChanges := Some (ext_receiveChanges ext) \<rparr>
         else p2)"

definition resolveEvtName :: "ICfgSyncConfig \<Rightarrow> string option" where
  "resolveEvtName ext = (if truthy_str (customEvtName ext) then customEvtName ext else Some evtName_default)"

definition renameEvent :: "host \<Rightarrow> ICfgSyncConfig \<Rightarrow> sys \<Rightarrow> sys" where
  "renameEvent h ext s =
     (case s of (p, w) \<Rightarrow>
        if evtName p \<noteq> resolveEvtName ext then
          (if truthy_flag (receiveChanges p) then
             snd (updateEventListenerName_internal h (resolveEvtName ext) (p, w))
           else (p\<lparr> evtName := resolveEvtName ext \<rparr>, eventOff_internal h p w))
        else (p, w))"

definition latchUrl :: "ICfgSyncConfig \<Rightarrow> plugin \<Rightarrow> plugin" where
  "latchUrl ext p = (if Option.is_none (cfgUrl p) then p\<lparr> cfgUrl := ext_cfgUrl ext \<rparr> else p)"

definition adoptConfig :: "host \<Rightarrow> jsval \<Rightarrow> sys \<Rightarrow> sys" where
  "adoptConfig h config s =
     (case s of (p, w) \<Rightarrow>
        if \<not> truthy_str (cfgUrl p) then
          (if truthy_flag (isAutoSync p) then
             snd (sendCfgsyncEvents h JUndefined (p\<lparr> mainConfig := config \<rparr>, w))
           else (p\<lparr> mainConfig := config \<rparr>, w))
        else (p, w))"

definition onConfigChange_callback :: "host \<Rightarrow> jsval \<Rightarrow> ICfgSyncConfig \<Rightarrow> sys \<Rightarrow> sys" where
  "onConfigChange_callback h config ext s =
     (case s of (p, w) \<Rightarrow>
        (case renameEvent h ext (latchFlags ext (p\<lparr> extensionConfig := Some ext \<rparr>), w) of
           (p4, w4) \<Rightarrow> adoptConfig h config (latchUrl ext p4, w4)))"

text \<open>
  \<^verbatim>\<open>_populateDefaults(config)\<close>: \<^verbatim>\<open>onConfigChange\<close> runs the callback once at once; then
  the overrides and the poll interval are read from \<^verbatim>\<open>_extensionConfig\<close> and, with a
  \<^verbatim>\<open>_cfgUrl\<close>, the first fetch is made (behind a test of \<^verbatim>\<open>_fetchFn\<close>) and the timer armed.
\<close>

definition populateDefaults :: "host \<Rightarrow> jsval \<Rightarrow> ICfgSyncConfig \<Rightarrow> sys \<Rightarrow> sys outcome" where
  "populateDefaults h config ext s =
     (case onConfigChange_callback h config ext s of (p1, w1) \<Rightarrow>
        (case extensionConfig p1 of
           None \<Rightarrow> Threw TypeError (p1, w1)
         | Some e \<Rightarrow>
             (let p2 = p1\<lparr> overrideSyncFn := ext_overrideSyncFn e,
                          overrideFetchFn := ext_overrideFetchFn e,
                          onCfgChangeReceive := ext_onCfgChangeReceive e,
                          nonOverrideConfigs := ext_nonOverrideConfigs e,
                          fetchSpan := scheduleFetchTimeout e \<rparr>
              in if truthy_str (cfgUrl p2) then
                   (let p3 = p2\<lparr> fetchFn := getFetchFnInterface h p2 \<rparr> in
                    case fetchFn p3 of
                      None \<Rightarrow> Returned (setupTimer (p3, w1))
                    | Some fn \<Rightarrow>
                        (case callFetchFn h fn (cfgUrl p3) (isAutoSync p3) (p3, w1) of
                           Threw err s' \<Rightarrow> Threw err s'
                         | Returned s' \<Rightarrow> Returned (setupTimer s')))
                 else Returned (p2, w1))))"

text \<open>
  \<^verbatim>\<open>initialize(config, core, extensions, pluginChain)\<close>: the namespace is the unique one
  the core hands out.
\<close>

definition initialize :: "host \<Rightarrow> string \<Rightarrow> jsval \<Rightarrow> ICfgSyncConfig \<Rightarrow> sys \<Rightarrow> sys outcome" where
  "initialize h ns config ext s =
     (case s of (p, w) \<Rightarrow> populateDefaults h config ext (p\<lparr> evtNamespace := Some ns \<rparr>, w))"

text \<open>\<^verbatim>\<open>_doTeardown\<close>: \<^verbatim>\<open>_eventOff(); _clearScheduledTimer(); _initDefaults();\<close>\<close>

definition doTeardown :: "host \<Rightarrow> sys \<Rightarrow> sys" where
  "doTeardown h s =
     (case s of (p, w) \<Rightarrow>
        (case clearScheduledTimer (p, eventOff_internal h p w) of (p', w') \<Rightarrow> (initDefaults p', w')))"

text \<open>The plugin as the constructor leaves it, in a world where nothing has happened yet.\<close>

definition plugin0 :: plugin where
  "plugin0 =
     \<lparr> extensionConfig = None, mainConfig = JNull, isAutoSync = None, evtName = None,
       evtNamespace = None, cfgUrl = None, timeoutHandle = None, receiveChanges = None,
       fetchSpan = None, onCfgChangeReceive = None, nonOverrideConfigs = None, fetchFn = None,
       overrideFetchFn = None, overrideSyncFn = None \<rparr>"

definition world0 :: world where
  "world0 =
     \<lparr> listeners = [], emitted = [], timers = [], nextHandle = 0, requests = [],
       hostUpdates = [], received = [] \<rparr>"

subsection \<open>Callbacks from the host\<close>

text \<open>
  What the host can call back after the plugin has returned: an armed timer fires, the
  bus delivers an event to a registered handler, the promise of a request in flight
  settles, a request in flight changes its ready state. The host calls only what is
  armed, registered or in flight; anything else leaves the state as it is.
\<close>

datatype callback =
    TimerFire nat
  | BusDeliver nat jsval
  | FetchSettled nat "response await"
  | XhrReadyStateChange nat xhr

definition remove_nth :: "nat \<Rightarrow> 'a list \<Rightarrow> 'a list" where
  "remove_nth k xs = take k xs @ drop (Suc k) xs"

fun deliver :: "host \<Rightarrow> callback \<Rightarrow> sys \<Rightarrow> sys outcome" where
  "deliver h (TimerFire t) (p, w) =
     (if t \<in> fst ` set (timers w) then timerCallback h (p, cancel t w) else Returned (p, w))"
| "deliver h (BusDeliver k event) (p, w) =
     (if k < length (listeners w) then cfgEventHandler h event (p, w) else Returned (p, w))"
| "deliver h (FetchSettled k result) (p, w) =
     (if k < length (requests w) \<and> fst (requests w ! k) = ViaFetch then
        Returned (fetchSender_settled (onFetchComplete h) (snd (snd (requests w ! k))) result
                    (p, w\<lparr> requests := remove_nth k (requests w) \<rparr>))
      else Returned (p, w))"
| "deliver h (XhrReadyStateChange k x) (p, w) =
     (if k < length (requests w) \<and> fst (requests w ! k) = ViaXhr then
        Returned (xhrSender_onreadystatechange (onFetchComplete h) (snd (snd (requests w ! k))) x
                    (p, if readyState x = XHR_DONE then w\<lparr> requests := remove_nth k (requests w) \<rparr> else w))
      else Returned (p, w))"

subsection \<open>Sample hosts and documents\<close>

text \<open>
  A parser for the sample documents used below. On them it answers what \<^verbatim>\<open>JSON.parse\<close>
  answers: \<^verbatim>\<open>null\<close> for the text \<^verbatim>\<open>null\<close>, the empty object for \<^verbatim>\<open>{}\<close>, the array of 10 for
  \<^verbatim>\<open>[10]\<close>, a syntax error for \<^verbatim>\<open>{oops\<close>. Every theorem that is not about a sample
  holds for any parser of the host.
\<close>

definition sampleJSON :: "string \<Rightarrow> js_error + jsval" where
  "sampleJSON body =
     (if body = ''null'' then Inr JNull
      else if body = ''{}'' then Inr (JObj [])
      else if body = ''[10]'' then Inr (JArr [JNum 10])
      else Inl SyntaxError)"

text \<open>A browser: a global object with \<^verbatim>\<open>fetch\<close>, XHR and JSON; nothing throws.\<close>

definition browser :: host where
  "browser =
     \<lparr> hasGlobal = True, fetchSupported = True, xhrSupported = True, globalFetch = True,
       hostJSON = Some sampleJSON, requestThrows = (\<lambda>tr url. False),
       emitAnswer = (\<lambda>name cfg details. Inr True), updateCfgThrows = (\<lambda>cfg. None) \<rparr>"

text \<open>A host with neither \<^verbatim>\<open>fetch\<close> nor XHR.\<close>

definition bareHost :: host where
  "bareHost = browser\<lparr> fetchSupported := False, xhrSupported := False, globalFetch := False \<rparr>"

definition sampleCfg :: jsval where
  "sampleCfg = JObj [(''instrumentationKey'', JStr ''abc''), (''sampleRate'', JNum 50)]"

definition sampleUrl :: string where
  "sampleUrl = ''https://example/cfg.json''"

subsection \<open>Sample notifications\<close>

text \<open>The host notifies the plugin of one configuration change after the other.\<close>

definition notifyAll :: "host \<Rightarrow> (jsval \<times> ICfgSyncConfig) list \<Rightarrow> sys \<Rightarrow> sys" where
  "notifyAll h ns s = fold (\<lambda>n. onConfigChange_callback h (fst n) (snd n)) ns s"

text \<open>
  A plugin whose three latched fields are established, and an extension configuration
  that asks for the opposite of each and for another event name.
\<close>

definition latchedPlugin :: plugin where
  "latchedPlugin =
     plugin0\<lparr> isAutoSync := Some True, receiveChanges := Some False, cfgUrl := Some sampleUrl,
              evtName := Some evtName_default \<rparr>"

definition flippedConfig :: ICfgSyncConfig where
  "flippedConfig =
     defaultConfig\<lparr> disableAutoSync := True, ext_receiveChanges := True,
                    ext_cfgUrl := Some ''https://other/cfg.json'', customEvtName := Some ''renamed'' \<rparr>"

subsection \<open>Reachable states\<close>

text \<open>
  What holds of every state the plugin reaches (shown below): each registration on the
  bus was made under the current namespace, none exists without a global object, and the
  only armed timer is the one whose handle the plugin holds.
\<close>

definition wellformed :: "host \<Rightarrow> sys \<Rightarrow> bool" where
  "wellformed h s =
     (case s of (p, w) \<Rightarrow>
        (\<forall>r \<in> set (listeners w). snd r = evtNamespace p)
        \<and> (hasGlobal h \<or> listeners w = [])
        \<and> (\<forall>t \<in> set (timers w). timeoutHandle p = Some (fst t)))"

subsection \<open>Sample events\<close>

definition sampleDetail :: jsval where
  "sampleDetail = JObj [(''cfg'', sampleCfg)]"

definition sampleEvent :: jsval where
  "sampleEvent = JObj [(''type'', JStr ''cfgsync''), (''detail'', sampleDetail)]"

text \<open>A receiving plugin with the default rules, and one with a receive callback as well.\<close>

definition receivingPlugin :: plugin where
  "receivingPlugin =
     plugin0\<lparr> isAutoSync := Some True, receiveChanges := Some True, evtName := Some evtName_default,
              evtNamespace := Some ''ns1'', nonOverrideConfigs := Some defaultNonOverrideCfg \<rparr>"

definition delegatingPlugin :: plugin where
  "delegatingPlugin = receivingPlugin\<lparr> onCfgChangeReceive := Some (\<lambda>e. None) \<rparr>"

text \<open>A world in which the receiving plugin is subscribed under the default event name.\<close>

definition subscribedWorld :: world where
  "subscribedWorld = world0\<lparr> listeners := [(Some evtName_default, Some ''ns1'')] \<rparr>"

subsection \<open>Looking into a configuration tree\<close>

text \<open>
  The value a tree holds under a path of keys; the key at position \<open>i\<close> of the path is a
  key of nesting level \<open>i + 1\<close>. Arrays and scalars have no keys.
\<close>

fun getPath :: "jsval \<Rightarrow> string list \<Rightarrow> jsval option" where
  "getPath v [] = Some v"
| "getPath (JObj kvs) (k # ks) = (case map_of kvs k of None \<Rightarrow> None | Some v \<Rightarrow> getPath v ks)"
| "getPath v (k # ks) = None"

fun isMapping :: "jsval \<Rightarrow> bool" where
  "isMapping (JObj kvs) = True"
| "isMapping v = False"

fun keysOf :: "jsval \<Rightarrow> string list" where
  "keysOf (JObj kvs) = map fst kvs"
| "keysOf v = []"

definition nestedCfg :: jsval where
  "nestedCfg =
     JObj [(''instrumentationKey'', JStr ''x''),
           (''extensionConfig'', JObj [(''endpointUrl'', JStr ''u''), (''sampleRate'', JNum 10)]),
           (''sampleRate'', JNum 50)]"

subsection \<open>Sample runs\<close>

text \<open>An extension configuration with a url: the plugin polls.\<close>

definition pollingConfig :: ICfgSyncConfig where
  "pollingConfig = defaultConfig\<lparr> ext_cfgUrl := Some sampleUrl \<rparr>"

text \<open>The plugin after \<^verbatim>\<open>initialize\<close> with that configuration, before a transport is chosen.\<close>

definition polling :: plugin where
  "polling =
     plugin0\<lparr> extensionConfig := Some pollingConfig, isAutoSync := Some True,
              evtName := Some evtName_default, evtNamespace := Some ''ns1'', cfgUrl := Some sampleUrl,
              timeoutHandle := Some 0, receiveChanges := Some False, fetchSpan := Some FETCH_SPAN,
              nonOverrideConfigs := Some defaultNonOverrideCfg \<rparr>"

definition pollingWorld :: world where
  "pollingWorld = world0\<lparr> timers := [(0, FETCH_SPAN)], nextHandle := 1 \<rparr>"

text \<open>The calls of a callback, written down in order.\<close>

definition recordCall :: "oncomplete_call list OnCompleteCallback" where
  "recordCall status response autoSync calls = Returned (calls @ [(status, response, autoSync)])"

text \<open>A response with status 200 whose body cannot be read.\<close>

definition unreadableResponse :: response where
  "unreadableResponse =
     \<lparr> resp_ok = True, resp_status = 200, resp_text = Rejected (JStr ''body stream already read'') \<rparr>"

text \<open>The part of a state that \<open>wellformed\<close> looks at.\<close>

definition footprint :: "sys \<Rightarrow> string option \<times> nat option \<times> (string option \<times> string option) list \<times> (nat \<times> nat) list" where
  "footprint s = (evtNamespace (fst s), timeoutHandle (fst s), listeners (snd s), timers (snd s))"

text \<open>
  The polling plugin in a browser: \<^verbatim>\<open>initialize\<close> has chosen the fetch strategy and sent
  the first request.
\<close>

definition fetching :: plugin where
  "fetching = polling\<lparr> fetchFn := Some FetchSender \<rparr>"

definition fetchingWorld :: world where
  "fetchingWorld = pollingWorld\<lparr> requests := [(ViaFetch, Some sampleUrl, Some True)] \<rparr>"

text \<open>A response with status 200 and the body \<^verbatim>\<open>{}\<close>.\<close>

definition emptyObjectResponse :: response where
  "emptyObjectResponse = \<lparr> resp_ok = True, resp_status = 200, resp_text = Resolved ''{}'' \<rparr>"

subsection \<open>Runs\<close>

text \<open>
  The states a plugin reaches from its construction: by \<^verbatim>\<open>initialize\<close> on a plugin that
  has no subscription (a new one, or one torn down), by a configuration change, by the
  public operations, by a callback of the host and by \<^verbatim>\<open>teardown\<close>.
\<close>

inductive reachable :: "host \<Rightarrow> sys \<Rightarrow> bool" for h :: host where
  constructed: "reachable h (plugin0, world0)"
| initialized: "reachable h (p, w) \<Longrightarrow> listeners w = [] \<Longrightarrow> reachable h (final (initialize h ns config ext (p, w)))"
| configChanged: "reachable h s \<Longrightarrow> reachable h (onConfigChange_callback h config ext s)"
| setCfgCalled: "reachable h s \<Longrightarrow> reachable h (snd (setCfg h config s))"
| syncCalled: "reachable h s \<Longrightarrow> reachable h (snd (sync h d s))"
| renamed: "reachable h s \<Longrightarrow> reachable h (snd (updateEventListenerName h name s))"
| calledBack: "reachable h s \<Longrightarrow> reachable h (final (deliver h cb s))"
| tornDown: "reachable h s \<Longrightarrow> reachable h (doTeardown h s)"

section \<open>Properties\<close>

subsection \<open>What the operations leave alone\<close>

lemma sendCfgsyncEvents_plugin [simp]: "fst (snd (sendCfgsyncEvents h d (p, w))) = p"
  by (simp add: sendCfgsyncEvents_def sendCustomEvent_def split: option.splits sum.splits prod.splits)

lemma setCfg_internal_mainConfig:
  "truthy config \<Longrightarrow> fst (snd (setCfg_internal h config autoSync (p, w))) = p\<lparr> mainConfig := config \<rparr>"
  by (simp add: setCfg_internal_def Let_def)

subsection \<open>setCfg\<close>

text \<open>
  C10. For every truthy config and every falsy autoSync flag, \<^verbatim>\<open>_setCfg\<close> stores the config
  as the snapshot and returns false all the same; so does the public \<^verbatim>\<open>setCfg\<close> when
  \<^verbatim>\<open>_isAutoSync\<close> is falsy. Nothing is sent: the world is as before.
\<close>

theorem setCfg_false_yet_replaced:
  assumes "truthy config" and "\<not> truthy_flag autoSync"
  shows "setCfg_internal h config autoSync (p, w) = (False, (p\<lparr> mainConfig := config \<rparr>, w))
         \<and> (\<not> truthy_flag (isAutoSync p) \<longrightarrow>
              setCfg h config (p, w) = (False, (p\<lparr> mainConfig := config \<rparr>, w)))"
  using assms by (simp add: setCfg_internal_def setCfg_def Let_def)

theorem setCfg_false_yet_replaced_witness:
  "truthy sampleCfg \<and> \<not> truthy_flag (Some False)
   \<and> setCfg_internal browser sampleCfg (Some False) (plugin0, world0)
       = (False, (plugin0\<lparr> mainConfig := sampleCfg \<rparr>, world0))
   \<and> setCfg browser sampleCfg (plugin0, world0) = (False, (plugin0\<lparr> mainConfig := sampleCfg \<rparr>, world0))
   \<and> mainConfig plugin0 \<noteq> sampleCfg"
  using setCfg_false_yet_replaced [of sampleCfg "Some False" browser plugin0 world0]
  by (simp add: sampleCfg_def plugin0_def)

subsection \<open>sync\<close>

text \<open>
  C9. \<^verbatim>\<open>sync(customDetails)\<close>: with an override sync function, the call returns what the
  override returns and the world is untouched (nothing is sent on the bus); without one,
  the snapshot is sent on the bus under the current event name and the call returns the
  answer of the bus. When the override or the bus throws, the call returns false and
  changes nothing.
\<close>

theorem sync_override_or_bus:
  "(\<forall>f. overrideSyncFn p = Some f \<longrightarrow>
      sync h d (p, w) = (case f (mainConfig p) d of Inr b \<Rightarrow> (b, (p, w)) | Inl e \<Rightarrow> (False, (p, w))))
   \<and> (overrideSyncFn p = None \<longrightarrow>
      sync h d (p, w) =
        (case emitAnswer h (evtName p) (mainConfig p) d of
           Inr b \<Rightarrow> (b, (p, w\<lparr> emitted := emitted w @ [(evtName p, mainConfig p, d)] \<rparr>))
         | Inl e \<Rightarrow> (False, (p, w))))"
  by (simp add: sync_def sendCfgsyncEvents_def sendCustomEvent_def split: sum.splits)

theorem sync_override_or_bus_witness:
  "sync browser JUndefined (plugin0\<lparr> overrideSyncFn := Some (\<lambda>cfg d. Inr True) \<rparr>, world0)
     = (True, (plugin0\<lparr> overrideSyncFn := Some (\<lambda>cfg d. Inr True) \<rparr>, world0))
   \<and> sync browser JUndefined (plugin0\<lparr> overrideSyncFn := Some (\<lambda>cfg d. Inl TypeError) \<rparr>, world0)
     = (False, (plugin0\<lparr> overrideSyncFn := Some (\<lambda>cfg d. Inl TypeError) \<rparr>, world0))
   \<and> sync browser (JStr ''why'') (plugin0\<lparr> mainConfig := sampleCfg, evtName := Some ''cfgsync'' \<rparr>, world0)
     = (True, (plugin0\<lparr> mainConfig := sampleCfg, evtName := Some ''cfgsync'' \<rparr>,
               world0\<lparr> emitted := [(Some ''cfgsync'', sampleCfg, JStr ''why'')] \<rparr>))
   \<and> sync (browser\<lparr> emitAnswer := (\<lambda>name cfg details. Inl TypeError) \<rparr>) JUndefined (plugin0, world0)
     = (False, (plugin0, world0))"
  using sync_override_or_bus [of "plugin0\<lparr> overrideSyncFn := Some (\<lambda>cfg d. Inr True) \<rparr>" browser JUndefined world0]
        sync_override_or_bus [of "plugin0\<lparr> overrideSyncFn := Some (\<lambda>cfg d. Inl TypeError) \<rparr>" browser JUndefined world0]
        sync_override_or_bus [of "plugin0\<lparr> mainConfig := sampleCfg, evtName := Some ''cfgsync'' \<rparr>" browser "JStr ''why''" world0]
        sync_override_or_bus [of plugin0 "browser\<lparr> emitAnswer := (\<lambda>name cfg details. Inl TypeError) \<rparr>" JUndefined world0]
  by (simp add: plugin0_def world0_def browser_def)

subsection \<open>Latched fields\<close>

lemma updateEventListenerName_internal_latched:
  "isAutoSync (fst (snd (updateEventListenerName_internal h name (p, w)))) = isAutoSync p"
  "receiveChanges (fst (snd (updateEventListenerName_internal h name (p, w)))) = receiveChanges p"
  "cfgUrl (fst (snd (updateEventListenerName_internal h name (p, w)))) = cfgUrl p"
  by (simp_all add: updateEventListenerName_internal_def Let_def)

lemma renameEvent_latched:
  "isAutoSync (fst (renameEvent h ext (p, w))) = isAutoSync p"
  "receiveChanges (fst (renameEvent h ext (p, w))) = receiveChanges p"
  "cfgUrl (fst (renameEvent h ext (p, w))) = cfgUrl p"
  by (simp_all add: renameEvent_def updateEventListenerName_internal_latched)

lemma adoptConfig_latched:
  "isAutoSync (fst (adoptConfig h config (p, w))) = isAutoSync p"
  "receiveChanges (fst (adoptConfig h config (p, w))) = receiveChanges p"
  "cfgUrl (fst (adoptConfig h config (p, w))) = cfgUrl p"
  by (simp_all add: adoptConfig_def)

lemma latchFlags_fields:
  "isAutoSync (latchFlags ext p) = (case isAutoSync p of None \<Rightarrow> Some (\<not> disableAutoSync ext) | Some b \<Rightarrow> Some b)"
  "receiveChanges (latchFlags ext p) = (case receiveChanges p of None \<Rightarrow> Some (ext_receiveChanges ext) | Some b \<Rightarrow> Some b)"
  "cfgUrl (latchFlags ext p) = cfgUrl p"
  by (simp_all add: latchFlags_def Let_def Option.is_none_def split: option.splits)

lemma latchUrl_fields:
  "isAutoSync (latchUrl ext p) = isAutoSync p"
  "receiveChanges (latchUrl ext p) = receiveChanges p"
  "cfgUrl (latchUrl ext p) = (case cfgUrl p of None \<Rightarrow> ext_cfgUrl ext | Some u \<Rightarrow> Some u)"
  by (simp_all add: latchUrl_def Option.is_none_def split: option.splits)

lemma onConfigChange_callback_latches:
  "isAutoSync (fst (onConfigChange_callback h config ext (p, w))) =
     (case isAutoSync p of None \<Rightarrow> Some (\<not> disableAutoSync ext) | Some b \<Rightarrow> Some b)"
  "receiveChanges (fst (onConfigChange_callback h config ext (p, w))) =
     (case receiveChanges p of None \<Rightarrow> Some (ext_receiveChanges ext) | Some b \<Rightarrow> Some b)"
  "cfgUrl (fst (onConfigChange_callback h config ext (p, w))) =
     (case cfgUrl p of None \<Rightarrow> ext_cfgUrl ext | Some u \<Rightarrow> Some u)"
proof -
  obtain p4 w4 where r: "renameEvent h ext (latchFlags ext (p\<lparr> extensionConfig := Some ext \<rparr>), w) = (p4, w4)"
    by (cases "renameEvent h ext (latchFlags ext (p\<lparr> extensionConfig := Some ext \<rparr>), w)")
  have cb: "onConfigChange_callback h config ext (p, w) = adoptConfig h config (latchUrl ext p4, w4)"
    by (simp add: onConfigChange_callback_def r)
  have p4: "isAutoSync p4 = isAutoSync (latchFlags ext (p\<lparr> extensionConfig := Some ext \<rparr>))"
    "receiveChanges p4 = receiveChanges (latchFlags ext (p\<lparr> extensionConfig := Some ext \<rparr>))"
    "cfgUrl p4 = cfgUrl (latchFlags ext (p\<lparr> extensionConfig := Some ext \<rparr>))"
    using renameEvent_latched [of h ext "latchFlags ext (p\<lparr> extensionConfig := Some ext \<rparr>)" w]
    by (simp_all add: r)
  show "isAutoSync (fst (onConfigChange_callback h config ext (p, w))) =
     (case isAutoSync p of None \<Rightarrow> Some (\<not> disableAutoSync ext) | Some b \<Rightarrow> Some b)"
    by (simp add: cb adoptConfig_latched latchUrl_fields p4 latchFlags_fields)
  show "receiveChanges (fst (onConfigChange_callback h config ext (p, w))) =
     (case receiveChanges p of None \<Rightarrow> Some (ext_receiveChanges ext) | Some b \<Rightarrow> Some b)"
    by (simp add: cb adoptConfig_latched latchUrl_fields p4 latchFlags_fields)
  show "cfgUrl (fst (onConfigChange_callback h config ext (p, w))) =
     (case cfgUrl p of None \<Rightarrow> ext_cfgUrl ext | Some u \<Rightarrow> Some u)"
    by (simp add: cb adoptConfig_latched latchUrl_fields p4 latchFlags_fields)
qed

lemma notifyAll_latched:
  "(isAutoSync p \<noteq> None \<longrightarrow> isAutoSync (fst (notifyAll h ns (p, w))) = isAutoSync p)
   \<and> (receiveChanges p \<noteq> None \<longrightarrow> receiveChanges (fst (notifyAll h ns (p, w))) = receiveChanges p)
   \<and> (cfgUrl p \<noteq> None \<longrightarrow> cfgUrl (fst (notifyAll h ns (p, w))) = cfgUrl p)"
proof (induction ns arbitrary: p w)
  case Nil
  show ?case by (simp add: notifyAll_def)
next
  case (Cons n ns)
  obtain p1 w1 where step: "onConfigChange_callback h (fst n) (snd n) (p, w) = (p1, w1)"
    by (cases "onConfigChange_callback h (fst n) (snd n) (p, w)")
  have unfold: "notifyAll h (n # ns) (p, w) = notifyAll h ns (p1, w1)"
    by (simp add: notifyAll_def step)
  have one:
    "isAutoSync p \<noteq> None \<longrightarrow> isAutoSync p1 = isAutoSync p"
    "receiveChanges p \<noteq> None \<longrightarrow> receiveChanges p1 = receiveChanges p"
    "cfgUrl p \<noteq> None \<longrightarrow> cfgUrl p1 = cfgUrl p"
    using onConfigChange_callback_latches [of h "fst n" "snd n" p w]
    by (auto simp: step)
  from Cons.IH [of p1 w1] one show ?case
    unfolding unfold by metis
qed

text \<open>
  C3. One notification assigns \<^verbatim>\<open>_isAutoSync\<close>, \<^verbatim>\<open>_receiveChanges\<close> and \<^verbatim>\<open>_cfgUrl\<close> only
  when the field is unset (\<^verbatim>\<open>null\<close> or \<^verbatim>\<open>undefined\<close>), and after any sequence of
  notifications a field that was established before still has its value. (The witness
  shows the event name changing meanwhile.)
\<close>

theorem latched_fields:
  "isAutoSync (fst (onConfigChange_callback h config ext (p, w))) =
     (case isAutoSync p of None \<Rightarrow> Some (\<not> disableAutoSync ext) | Some b \<Rightarrow> Some b)
   \<and> receiveChanges (fst (onConfigChange_callback h config ext (p, w))) =
     (case receiveChanges p of None \<Rightarrow> Some (ext_receiveChanges ext) | Some b \<Rightarrow> Some b)
   \<and> cfgUrl (fst (onConfigChange_callback h config ext (p, w))) =
     (case cfgUrl p of None \<Rightarrow> ext_cfgUrl ext | Some u \<Rightarrow> Some u)
   \<and> (isAutoSync p \<noteq> None \<longrightarrow> isAutoSync (fst (notifyAll h ns (p, w))) = isAutoSync p)
   \<and> (receiveChanges p \<noteq> None \<longrightarrow> receiveChanges (fst (notifyAll h ns (p, w))) = receiveChanges p)
   \<and> (cfgUrl p \<noteq> None \<longrightarrow> cfgUrl (fst (notifyAll h ns (p, w))) = cfgUrl p)"
  using onConfigChange_callback_latches [of h config ext p w] notifyAll_latched [of p h ns w]
  by simp

lemma notifyAll_renames: "evtName (fst (notifyAll browser [(sampleCfg, flippedConfig), (JNull, flippedConfig)] (latchedPlugin, world0))) = Some ''renamed''"
  by (simp add: notifyAll_def onConfigChange_callback_def renameEvent_def latchFlags_def latchUrl_def
        adoptConfig_def resolveEvtName_def flippedConfig_def defaultConfig_def latchedPlugin_def
        plugin0_def world0_def browser_def eventOff_internal_def eventOff_def Option.is_none_def
        sampleUrl_def evtName_default_def)

theorem latched_fields_witness:
  "isAutoSync latchedPlugin \<noteq> None \<and> receiveChanges latchedPlugin \<noteq> None \<and> cfgUrl latchedPlugin \<noteq> None
   \<and> isAutoSync (fst (notifyAll browser [(sampleCfg, flippedConfig), (JNull, flippedConfig)] (latchedPlugin, world0))) = Some True
   \<and> receiveChanges (fst (notifyAll browser [(sampleCfg, flippedConfig), (JNull, flippedConfig)] (latchedPlugin, world0))) = Some False
   \<and> cfgUrl (fst (notifyAll browser [(sampleCfg, flippedConfig), (JNull, flippedConfig)] (latchedPlugin, world0))) = Some sampleUrl
   \<and> evtName (fst (notifyAll browser [(sampleCfg, flippedConfig), (JNull, flippedConfig)] (latchedPlugin, world0))) = Some ''renamed''
   \<and> evtName latchedPlugin = Some ''cfgsync''"
  using latched_fields [of browser sampleCfg flippedConfig latchedPlugin world0
          "[(sampleCfg, flippedConfig), (JNull, flippedConfig)]"] notifyAll_renames
  by (simp add: latchedPlugin_def plugin0_def evtName_default_def)

subsection \<open>The fetch-completion callback\<close>

lemma onFetchComplete_accepted:
  assumes "200 \<le> status" "status < 400" "response = Some body" "body \<noteq> []"
    "hostJSON h = Some parse" "parse body = Inr cfg" "truthy cfg"
  shows "onFetchComplete h status response autoSync (p, w) = Returned (snd (setCfg_internal h cfg autoSync (p, w)))"
  using assms by (simp add: onFetchComplete_def)

lemma onFetchComplete_refused:
  assumes "\<not> (\<exists>parse body cfg. 200 \<le> status \<and> status < 400 \<and> response = Some body \<and> body \<noteq> []
              \<and> hostJSON h = Some parse \<and> parse body = Inr cfg \<and> truthy cfg)"
  shows "onFetchComplete h status response autoSync (p, w) = Returned (p, w)"
proof (cases "200 \<le> status \<and> status < 400 \<and> truthy_str response")
  case False
  then show ?thesis by (auto simp: onFetchComplete_def)
next
  case True
  then obtain body where b: "response = Some body" "body \<noteq> []"
    by (cases response) auto
  show ?thesis
  proof (cases "hostJSON h")
    case None
    then show ?thesis by (simp add: onFetchComplete_def)
  next
    case (Some parse)
    with assms True b have "\<forall>cfg. parse body = Inr cfg \<longrightarrow> \<not> truthy cfg" by auto
    with Some b show ?thesis by (simp add: onFetchComplete_def split: sum.splits)
  qed
qed

lemma onFetchComplete_returns: "\<not> threw (onFetchComplete h status response autoSync s)"
  by (simp add: onFetchComplete_def split: option.splits sum.splits)

text \<open>
  C6, as stated, fails: status 200 with the body \<^verbatim>\<open>null\<close> is in range, non-empty and
  parses, and the snapshot is not replaced by the parsed document.
\<close>

theorem onFetchComplete_null_document_counterexample:
  "(200::int) \<le> 200 \<and> (200::int) < 400 \<and> ''null'' \<noteq> [] \<and> hostJSON browser = Some sampleJSON
   \<and> sampleJSON ''null'' = Inr JNull
   \<and> onFetchComplete browser 200 (Some ''null'') (Some True) (plugin0\<lparr> mainConfig := sampleCfg \<rparr>, world0)
       = Returned (plugin0\<lparr> mainConfig := sampleCfg \<rparr>, world0)
   \<and> mainConfig (plugin0\<lparr> mainConfig := sampleCfg \<rparr>) \<noteq> JNull"
  by (simp add: onFetchComplete_def browser_def sampleJSON_def sampleCfg_def)

text \<open>
  C6, amended. The callback replaces the snapshot with the parsed document, through
  \<^verbatim>\<open>_setCfg\<close> with the \<^verbatim>\<open>isAutoSync\<close> flag, exactly when the status is in [200,400), the body
  is non-empty, the host has a JSON parser, parsing succeeds and the parsed value is
  truthy; in every other case the state is unchanged; it never throws.
\<close>

theorem onFetchComplete_accepts_truthy_documents:
  "(\<forall>parse body cfg.
      200 \<le> status \<and> status < 400 \<and> response = Some body \<and> body \<noteq> [] \<and> hostJSON h = Some parse
      \<and> parse body = Inr cfg \<and> truthy cfg \<longrightarrow>
        onFetchComplete h status response autoSync (p, w) = Returned (snd (setCfg_internal h cfg autoSync (p, w)))
        \<and> fst (final (onFetchComplete h status response autoSync (p, w))) = p\<lparr> mainConfig := cfg \<rparr>)
   \<and> (\<not> (\<exists>parse body cfg.
             200 \<le> status \<and> status < 400 \<and> response = Some body \<and> body \<noteq> [] \<and> hostJSON h = Some parse
             \<and> parse body = Inr cfg \<and> truthy cfg) \<longrightarrow>
        onFetchComplete h status response autoSync (p, w) = Returned (p, w))
   \<and> \<not> threw (onFetchComplete h status response autoSync (p, w))"
proof (intro conjI allI impI)
  fix parse body cfg
  assume a: "200 \<le> status \<and> status < 400 \<and> response = Some body \<and> body \<noteq> [] \<and> hostJSON h = Some parse
      \<and> parse body = Inr cfg \<and> truthy cfg"
  then show r: "onFetchComplete h status response autoSync (p, w) = Returned (snd (setCfg_internal h cfg autoSync (p, w)))"
    using onFetchComplete_accepted [of status response body h parse cfg autoSync p w] by simp
  from r have "fst (final (onFetchComplete h status response autoSync (p, w)))
      = fst (snd (setCfg_internal h cfg autoSync (p, w)))"
    by simp
  with a show "fst (final (onFetchComplete h status response autoSync (p, w))) = p\<lparr> mainConfig := cfg \<rparr>"
    by (simp add: setCfg_internal_mainConfig)
next
  assume "\<not> (\<exists>parse body cfg.
             200 \<le> status \<and> status < 400 \<and> response = Some body \<and> body \<noteq> [] \<and> hostJSON h = Some parse
             \<and> parse body = Inr cfg \<and> truthy cfg)"
  then show "onFetchComplete h status response autoSync (p, w) = Returned (p, w)"
    by (rule onFetchComplete_refused)
next
  show "\<not> threw (onFetchComplete h status response autoSync (p, w))"
    by (rule onFetchComplete_returns)
qed

theorem onFetchComplete_accepts_truthy_documents_witness:
  "fst (final (onFetchComplete browser 200 (Some ''{}'') None (plugin0, world0))) = plugin0\<lparr> mainConfig := JObj [] \<rparr>
   \<and> onFetchComplete browser 404 (Some ''{}'') None (plugin0, world0) = Returned (plugin0, world0)
   \<and> onFetchComplete browser 200 (Some ''{oops'') None (plugin0, world0) = Returned (plugin0, world0)"
proof -
  have json: "hostJSON browser = Some sampleJSON"
    by (simp add: browser_def)
  have good: "sampleJSON ''{}'' = Inr (JObj [])" and bad: "sampleJSON ''{oops'' = Inl SyntaxError"
    by (simp_all add: sampleJSON_def)
  have "fst (final (onFetchComplete browser 200 (Some ''{}'') None (plugin0, world0))) = plugin0\<lparr> mainConfig := JObj [] \<rparr>"
    using onFetchComplete_accepts_truthy_documents [of 200 "Some ''{}''" browser None plugin0 world0] json good
    by fastforce
  moreover have "onFetchComplete browser 404 (Some ''{}'') None (plugin0, world0) = Returned (plugin0, world0)"
    using onFetchComplete_accepts_truthy_documents [of 404 "Some ''{}''" browser None plugin0 world0]
    by simp
  moreover have "onFetchComplete browser 200 (Some ''{oops'') None (plugin0, world0) = Returned (plugin0, world0)"
    using onFetchComplete_accepts_truthy_documents [of 200 "Some ''{oops''" browser None plugin0 world0] json bad
    by simp
  ultimately show ?thesis by simp
qed

subsection \<open>Receiving an event\<close>

lemma truthy_js_and_getProp: "truthy (js_and v (getProp v k)) = truthy (getProp v k)"
  by (cases v) (simp_all add: js_and_def)

lemma js_and_getProp_truthy: "truthy (getProp v k) \<Longrightarrow> js_and v (getProp v k) = getProp v k"
  by (cases v) (simp_all add: js_and_def)

lemma js_and_getProp_falsy: "\<not> truthy (getProp v k) \<Longrightarrow> \<not> truthy (js_and v (getProp v k))"
  by (simp add: truthy_js_and_getProp)

lemma truthy_sanitize: "truthy (sanitize rules level maxLevel v) = truthy v"
  by (cases v) simp_all

lemma sanitize_eq_JNull: "sanitize rules level maxLevel v = JNull \<longleftrightarrow> v = JNull"
  by (cases v) simp_all

lemma truthy_replaceTartgetByKeys:
  "truthy (replaceTartgetByKeys p cfg) \<longleftrightarrow> replaceTartgetByKeys p cfg \<noteq> JNull"
  by (cases "nonOverrideConfigs p")
     (auto simp: replaceTartgetByKeys_def replaceByNonOverrideCfg_def truthy_sanitize sanitize_eq_JNull)

lemma replaceTartgetByKeys_falsy: "\<not> truthy cfg \<Longrightarrow> replaceTartgetByKeys p cfg = JNull"
  by (simp add: replaceTartgetByKeys_def)

lemma cfgEventHandler_delegate:
  assumes "onCfgChangeReceive p = Some f" and "truthy (getProp event ''detail'')"
  shows "cfgEventHandler h event (p, w) =
           (case f (getProp event ''detail'') of
              Some e \<Rightarrow> Threw e (p, w\<lparr> received := received w @ [getProp event ''detail''] \<rparr>)
            | None \<Rightarrow> Returned (p, w\<lparr> received := received w @ [getProp event ''detail''] \<rparr>))"
  using assms by (simp add: cfgEventHandler_def Let_def js_and_getProp_truthy)

lemma cfgEventHandler_merge:
  assumes "onCfgChangeReceive p = None \<or> \<not> truthy (getProp event ''detail'')"
  shows "cfgEventHandler h event (p, w) =
           (if replaceTartgetByKeys p (getProp (getProp event ''detail'') ''cfg'') \<noteq> JNull
            then core_updateCfg h (replaceTartgetByKeys p (getProp (getProp event ''detail'') ''cfg'')) (p, w)
            else Returned (p, w))"
proof -
  let ?d = "js_and event (getProp event ''detail'')"
  let ?c = "js_and ?d (getProp ?d ''cfg'')"
  have branch: "\<not> (\<not> Option.is_none (onCfgChangeReceive p) \<and> truthy ?d)"
    using assms by (auto simp: truthy_js_and_getProp)
  have h: "cfgEventHandler h event (p, w) =
             (if truthy (if truthy ?c then replaceTartgetByKeys p ?c else ?c)
              then core_updateCfg h (if truthy ?c then replaceTartgetByKeys p ?c else ?c) (p, w)
              else Returned (p, w))"
    unfolding cfgEventHandler_def Let_def prod.case by (simp only: if_not_P [OF branch])
  show ?thesis
  proof (cases "truthy (getProp (getProp event ''detail'') ''cfg'')")
    case True
    then have d: "truthy (getProp event ''detail'')"
      by (cases "getProp event ''detail''") simp_all
    then have "?d = getProp event ''detail''"
      by (rule js_and_getProp_truthy)
    with True have "?c = getProp (getProp event ''detail'') ''cfg''"
      by (simp add: js_and_getProp_truthy)
    with True show ?thesis
      by (simp add: h truthy_replaceTartgetByKeys)
  next
    case False
    have "\<not> truthy ?c"
    proof (cases "truthy (getProp event ''detail'')")
      case True
      then have "?d = getProp event ''detail''"
        by (rule js_and_getProp_truthy)
      with False show ?thesis
        by (simp add: truthy_js_and_getProp)
    next
      case False
      then have "\<not> truthy ?d"
        by (rule js_and_getProp_falsy)
      then show ?thesis
        by (simp add: js_and_def)
    qed
    with False show ?thesis
      by (simp add: h replaceTartgetByKeys_falsy)
  qed
qed

text \<open>
  C5, as stated, fails: with a receive callback configured, the callback is given
  \<^verbatim>\<open>event.detail\<close>, which is not the event; and an event without a detail is not given to
  the callback at all.
\<close>

theorem cfgEventHandler_raw_event_counterexample:
  "onCfgChangeReceive delegatingPlugin \<noteq> None
   \<and> received (snd (final (cfgEventHandler browser sampleEvent (delegatingPlugin, world0)))) = [sampleDetail]
   \<and> sampleDetail \<noteq> sampleEvent
   \<and> received (snd (final (cfgEventHandler browser (JObj [(''type'', JStr ''cfgsync'')]) (delegatingPlugin, world0)))) = []"
  by (simp add: cfgEventHandler_def delegatingPlugin_def receivingPlugin_def plugin0_def world0_def
        sampleEvent_def sampleDetail_def js_and_def Option.is_none_def replaceTartgetByKeys_def)

text \<open>
  C5, amended. With a receive callback configured and a truthy \<^verbatim>\<open>event.detail\<close>, the
  callback is given \<^verbatim>\<open>event.detail\<close> as it is and nothing else happens (the handler throws
  what the callback throws). Otherwise \<^verbatim>\<open>event.detail.cfg\<close> is sanitized and the host
  configuration is updated with the result exactly when the result is not null; with a
  falsy cfg or a null result the state is unchanged and nothing is thrown.
\<close>

theorem cfgEventHandler_delegates_detail_or_merges:
  "(\<forall>f. onCfgChangeReceive p = Some f \<and> truthy (getProp event ''detail'') \<longrightarrow>
      cfgEventHandler h event (p, w) =
        (case f (getProp event ''detail'') of
           Some e \<Rightarrow> Threw e (p, w\<lparr> received := received w @ [getProp event ''detail''] \<rparr>)
         | None \<Rightarrow> Returned (p, w\<lparr> received := received w @ [getProp event ''detail''] \<rparr>)))
   \<and> (onCfgChangeReceive p = None \<or> \<not> truthy (getProp event ''detail'') \<longrightarrow>
      cfgEventHandler h event (p, w) =
        (if replaceTartgetByKeys p (getProp (getProp event ''detail'') ''cfg'') \<noteq> JNull
         then core_updateCfg h (replaceTartgetByKeys p (getProp (getProp event ''detail'') ''cfg'')) (p, w)
         else Returned (p, w)))
   \<and> (\<not> truthy (getProp (getProp event ''detail'') ''cfg'') \<longrightarrow>
      replaceTartgetByKeys p (getProp (getProp event ''detail'') ''cfg'') = JNull)"
  using cfgEventHandler_delegate [of p _ event h w] cfgEventHandler_merge [of p event h w]
    replaceTartgetByKeys_falsy [of "getProp (getProp event ''detail'') ''cfg''" p]
  by blast

theorem cfgEventHandler_delegates_detail_or_merges_witness:
  "cfgEventHandler browser sampleEvent (delegatingPlugin, world0)
     = Returned (delegatingPlugin, world0\<lparr> received := [sampleDetail] \<rparr>)
   \<and> cfgEventHandler browser sampleEvent (receivingPlugin, world0)
     = Returned (receivingPlugin, world0\<lparr> hostUpdates := [JObj [(''sampleRate'', JNum 50)]] \<rparr>)
   \<and> cfgEventHandler browser (JObj [(''detail'', JObj [(''cfg'', JNull)])]) (receivingPlugin, world0)
     = Returned (receivingPlugin, world0)"
proof -
  have d: "getProp sampleEvent ''detail'' = sampleDetail" "truthy sampleDetail"
    "getProp sampleDetail ''cfg'' = sampleCfg"
    by (simp_all add: sampleEvent_def sampleDetail_def)
  have f: "onCfgChangeReceive delegatingPlugin = Some (\<lambda>e. None)" "onCfgChangeReceive receivingPlugin = None"
    by (simp_all add: delegatingPlugin_def receivingPlugin_def plugin0_def)
  have m: "replaceTartgetByKeys receivingPlugin sampleCfg = JObj [(''sampleRate'', JNum 50)]"
    by (simp add: replaceTartgetByKeys_def replaceByNonOverrideCfg_def receivingPlugin_def plugin0_def
          sampleCfg_def defaultNonOverrideCfg_def protected_def Option.is_none_def)
  have n: "replaceTartgetByKeys receivingPlugin JNull = JNull"
    by (simp add: replaceTartgetByKeys_def)
  have "cfgEventHandler browser sampleEvent (delegatingPlugin, world0)
     = Returned (delegatingPlugin, world0\<lparr> received := [sampleDetail] \<rparr>)"
    using cfgEventHandler_delegates_detail_or_merges [of delegatingPlugin sampleEvent browser world0] d f
    by (simp add: world0_def)
  moreover have "cfgEventHandler browser sampleEvent (receivingPlugin, world0)
     = Returned (receivingPlugin, world0\<lparr> hostUpdates := [JObj [(''sampleRate'', JNum 50)]] \<rparr>)"
    using cfgEventHandler_delegates_detail_or_merges [of receivingPlugin sampleEvent browser world0] d f m
    by (simp add: core_updateCfg_def browser_def world0_def)
  moreover have "cfgEventHandler browser (JObj [(''detail'', JObj [(''cfg'', JNull)])]) (receivingPlugin, world0)
     = Returned (receivingPlugin, world0)"
    using cfgEventHandler_delegates_detail_or_merges
            [of receivingPlugin "JObj [(''detail'', JObj [(''cfg'', JNull)])]" browser world0] f n
    by simp
  ultimately show ?thesis by simp
qed

subsection \<open>Renaming the listener\<close>

lemma eventOff_internal_wellformed:
  assumes "wellformed h (p, w)"
  shows "eventOff_internal h p w = w\<lparr> listeners := [] \<rparr>"
proof (cases "hasGlobal h")
  case True
  from assms have "filter (\<lambda>r. snd r \<noteq> evtNamespace p) (listeners w) = []"
    by (auto simp: wellformed_def filter_empty_conv)
  with True show ?thesis
    by (simp add: eventOff_internal_def eventOff_def)
next
  case False
  with assms have "listeners w = []"
    by (simp add: wellformed_def)
  with False show ?thesis
    by (simp add: eventOff_internal_def)
qed

lemma updateEventListenerName_internal_result:
  "fst (updateEventListenerName_internal h name (p, w)) = True"
  "fst (snd (updateEventListenerName_internal h name (p, w))) = (if truthy_str name then p\<lparr> evtName := name \<rparr> else p)"
  by (simp_all add: updateEventListenerName_internal_def Let_def)

lemma updateEventListenerName_internal_world:
  assumes "wellformed h (p, w)"
  shows "snd (snd (updateEventListenerName_internal h name (p, w))) =
           w\<lparr> listeners := (if truthy_str name \<and> truthy_flag (receiveChanges p) \<and> hasGlobal h
                            then [(name, evtNamespace p)] else []) \<rparr>"
  by (simp add: updateEventListenerName_internal_def Let_def eventOff_internal_wellformed [OF assms]
        addEventListener_def eventOn_def)

text \<open>
  C8, as stated, fails: a plugin that is not in receive mode is given a name, stores it
  and returns true, and no listener is subscribed under the new name.
\<close>

theorem updateEventListenerName_broadcast_only_counterexample:
  "updateEventListenerName browser (Some ''renamed'') (latchedPlugin, world0)
     = (True, (latchedPlugin\<lparr> evtName := Some ''renamed'' \<rparr>, world0))
   \<and> listeners world0 = []"
  by (simp add: updateEventListenerName_def updateEventListenerName_internal_def Let_def
        eventOff_internal_def eventOff_def addEventListener_def latchedPlugin_def plugin0_def
        world0_def browser_def)

text \<open>
  C8, amended. \<^verbatim>\<open>updateEventListenerName(name)\<close> always returns true (nothing reaches its
  \<^verbatim>\<open>catch\<close>); it removes the current listener; with a truthy name it stores the name, and
  it subscribes the listener under the new name only when the plugin is in receive mode
  and the host has a global object. Nothing else changes.
\<close>

theorem updateEventListenerName_resubscribes_in_receive_mode:
  "fst (updateEventListenerName h name (p, w)) = True
   \<and> fst (snd (updateEventListenerName h name (p, w))) = (if truthy_str name then p\<lparr> evtName := name \<rparr> else p)
   \<and> (wellformed h (p, w) \<longrightarrow>
        snd (snd (updateEventListenerName h name (p, w))) =
          w\<lparr> listeners := (if truthy_str name \<and> truthy_flag (receiveChanges p) \<and> hasGlobal h
                           then [(name, evtNamespace p)] else []) \<rparr>)"
  using updateEventListenerName_internal_result [of h name p w]
    updateEventListenerName_internal_world [of h p w name]
  by (simp add: updateEventListenerName_def)

theorem updateEventListenerName_resubscribes_in_receive_mode_witness:
  "wellformed browser (receivingPlugin, subscribedWorld)
   \<and> updateEventListenerName browser (Some ''renamed'') (receivingPlugin, subscribedWorld)
       = (True, (receivingPlugin\<lparr> evtName := Some ''renamed'' \<rparr>,
                 world0\<lparr> listeners := [(Some ''renamed'', Some ''ns1'')] \<rparr>))
   \<and> updateEventListenerName browser None (receivingPlugin, subscribedWorld)
       = (True, (receivingPlugin, world0))"
proof -
  have wf: "wellformed browser (receivingPlugin, subscribedWorld)"
    by (simp add: wellformed_def receivingPlugin_def subscribedWorld_def plugin0_def world0_def browser_def)
  have facts: "truthy_flag (receiveChanges receivingPlugin)" "hasGlobal browser"
    "evtNamespace receivingPlugin = Some ''ns1''" "subscribedWorld\<lparr> listeners := [] \<rparr> = world0"
    by (simp_all add: receivingPlugin_def plugin0_def browser_def subscribedWorld_def world0_def)
  have "updateEventListenerName browser (Some ''renamed'') (receivingPlugin, subscribedWorld)
       = (True, (receivingPlugin\<lparr> evtName := Some ''renamed'' \<rparr>,
                 world0\<lparr> listeners := [(Some ''renamed'', Some ''ns1'')] \<rparr>))"
    using updateEventListenerName_resubscribes_in_receive_mode
            [of browser "Some ''renamed''" receivingPlugin subscribedWorld] wf facts
    by (simp add: prod_eq_iff subscribedWorld_def world0_def)
  moreover have "updateEventListenerName browser None (receivingPlugin, subscribedWorld)
       = (True, (receivingPlugin, world0))"
    using updateEventListenerName_resubscribes_in_receive_mode
            [of browser None receivingPlugin subscribedWorld] wf facts
    by (simp add: prod_eq_iff)
  ultimately show ?thesis using wf by simp
qed

subsection \<open>Selective merge\<close>

lemma map_of_sanitize_props:
  "map_of (sanitize_props rules level maxLevel kvs) k =
     (if protected rules k then None
      else map_option (\<lambda>v. if level < maxLevel then sanitize rules (Suc level) maxLevel v else v)
             (map_of kvs k))"
  by (induction kvs) auto

lemma keys_sanitize_props:
  "map fst (sanitize_props rules level maxLevel kvs) = filter (\<lambda>k. \<not> protected rules k) (map fst kvs)"
  by (induction kvs) auto

lemma getPath_not_mapping: "\<not> isMapping v \<Longrightarrow> getPath v (k # ks) = None"
  by (cases v) simp_all

lemma sanitize_not_mapping: "\<not> isMapping v \<Longrightarrow> sanitize rules level maxLevel v = v"
  by (cases v) simp_all

lemma isMapping_sanitize: "isMapping (sanitize rules level maxLevel v) = isMapping v"
  by (cases v) simp_all

lemma sanitize_eq_leaf:
  assumes "\<not> isMapping v"
  shows "sanitize rules level maxLevel x = v \<longleftrightarrow> x = v"
proof
  assume e: "sanitize rules level maxLevel x = v"
  with assms have "\<not> isMapping x"
    using isMapping_sanitize [of rules level maxLevel x] by simp
  with e show "x = v"
    by (simp add: sanitize_not_mapping)
next
  assume "x = v"
  with assms show "sanitize rules level maxLevel x = v"
    by (simp add: sanitize_not_mapping)
qed

text \<open>
  Under a path, the sanitized tree holds nothing when a key of the path at a level up to
  \<open>maxLevel\<close> is protected; otherwise it holds what the tree holds there, sanitized from
  the level of that value on (as it is, below \<open>maxLevel\<close>).
\<close>

lemma getPath_sanitize:
  assumes "level \<le> maxLevel"
  shows "getPath (sanitize rules level maxLevel v) ks =
           (if \<exists>k \<in> set (take (Suc maxLevel - level) ks). protected rules k then None
            else map_option
                   (\<lambda>x. if level + length ks \<le> maxLevel then sanitize rules (level + length ks) maxLevel x else x)
                   (getPath v ks))"
  using assms
proof (induction ks arbitrary: v level)
  case Nil
  then show ?case by simp
next
  case (Cons k ks)
  from Cons.prems have tk: "take (Suc maxLevel - level) (k # ks) = k # take (maxLevel - level) ks"
    by (simp add: Suc_diff_le)
  show ?case
  proof (cases "isMapping v")
    case False
    then show ?thesis
      by (simp add: sanitize_not_mapping getPath_not_mapping)
  next
    case True
    then obtain kvs where v: "v = JObj kvs"
      by (cases v) simp_all
    show ?thesis
    proof (cases "protected rules k")
      case True
      then show ?thesis
        by (simp add: v tk map_of_sanitize_props)
    next
      case unprotected: False
      show ?thesis
      proof (cases "map_of kvs k")
        case None
        with unprotected show ?thesis
          by (simp add: v tk map_of_sanitize_props)
      next
        case (Some x)
        show ?thesis
        proof (cases "level < maxLevel")
          case True
          then have le: "Suc level \<le> maxLevel" by simp
          have tk': "take (Suc maxLevel - Suc level) ks = take (maxLevel - level) ks"
            by simp
          from True unprotected Some show ?thesis
            using Cons.IH [OF le, of x]
            by (simp add: v tk tk' map_of_sanitize_props del: diff_Suc_Suc cong: if_cong)
        next
          case False
          with Cons.prems have "level = maxLevel" by simp
          with unprotected Some show ?thesis
            by (simp add: v map_of_sanitize_props option.map_ident)
        qed
      qed
    qed
  qed
qed

text \<open>
  C7. The sanitized configuration \<^verbatim>\<open>_replaceTartgetByKeys(c)\<close> (level 1, 5 levels):
  it is \<^verbatim>\<open>null\<close> when the rules are absent or \<open>c\<close> is falsy; for a configuration tree \<open>c\<close>
  and rules \<open>r\<close>, no path with a protected key among its first five keys leads anywhere in
  the result; along every other path the result has a value exactly where \<open>c\<close> has one,
  the same value when that is not a mapping or lies below level 5; and the keys of the
  result are the unprotected keys of \<open>c\<close>, in the order of \<open>c\<close>.
\<close>

theorem replaceTartgetByKeys_strips_protected_keys:
  "(nonOverrideConfigs p = None \<or> \<not> truthy c \<longrightarrow> replaceTartgetByKeys p c = JNull)
   \<and> (\<forall>r kvs. nonOverrideConfigs p = Some r \<and> c = JObj kvs \<longrightarrow>
         keysOf (replaceTartgetByKeys p c) = filter (\<lambda>k. \<not> protected r k) (keysOf c)
         \<and> (\<forall>ks. (\<exists>k \<in> set (take 5 ks). protected r k) \<longrightarrow> getPath (replaceTartgetByKeys p c) ks = None)
         \<and> (\<forall>ks. (\<forall>k \<in> set (take 5 ks). \<not> protected r k) \<longrightarrow>
               (getPath (replaceTartgetByKeys p c) ks = None \<longleftrightarrow> getPath c ks = None)
               \<and> (\<forall>v. \<not> isMapping v \<longrightarrow>
                     (getPath (replaceTartgetByKeys p c) ks = Some v \<longleftrightarrow> getPath c ks = Some v))
               \<and> (5 \<le> length ks \<longrightarrow> getPath (replaceTartgetByKeys p c) ks = getPath c ks)))"
proof (intro conjI allI impI)
  assume "nonOverrideConfigs p = None \<or> \<not> truthy c"
  then show "replaceTartgetByKeys p c = JNull"
    by (auto simp: replaceTartgetByKeys_def)
next
  fix r kvs
  assume a: "nonOverrideConfigs p = Some r \<and> c = JObj kvs"
  then have out: "replaceTartgetByKeys p c = sanitize r 1 5 c"
    by (simp add: replaceTartgetByKeys_def replaceByNonOverrideCfg_def)
  from a have c: "c = JObj kvs" by simp
  show "keysOf (replaceTartgetByKeys p c) = filter (\<lambda>k. \<not> protected r k) (keysOf c)"
    unfolding out unfolding c by (simp add: keys_sanitize_props)
  have path: "getPath (replaceTartgetByKeys p c) ks =
           (if \<exists>k \<in> set (take 5 ks). protected r k then None
            else map_option (\<lambda>x. if length ks < 5 then sanitize r (Suc (length ks)) 5 x else x) (getPath c ks))"
    for ks
    using getPath_sanitize [of 1 5 r c ks]
    by (simp add: out less_Suc_eq_le Suc_le_eq cong: if_cong)
  {
    fix ks
    assume "\<exists>k \<in> set (take 5 ks). protected r k"
    then show "getPath (replaceTartgetByKeys p c) ks = None"
      by (simp add: path)
  }
  {
    fix ks
    assume u: "\<forall>k \<in> set (take 5 ks). \<not> protected r k"
    then have path': "getPath (replaceTartgetByKeys p c) ks =
        map_option (\<lambda>x. if length ks < 5 then sanitize r (Suc (length ks)) 5 x else x) (getPath c ks)"
      using path [of ks] by simp
    show "(getPath (replaceTartgetByKeys p c) ks = None) = (getPath c ks = None)"
      by (simp add: path')
    {
      fix v
      assume "\<not> isMapping v"
      then show "(getPath (replaceTartgetByKeys p c) ks = Some v) = (getPath c ks = Some v)"
        by (cases "getPath c ks") (simp_all add: path' sanitize_eq_leaf)
    }
    {
      assume "5 \<le> length ks"
      then show "getPath (replaceTartgetByKeys p c) ks = getPath c ks"
        by (simp add: path' option.map_ident)
    }
  }
qed

theorem replaceTartgetByKeys_strips_protected_keys_witness:
  "replaceTartgetByKeys plugin0 nestedCfg = JNull
   \<and> replaceTartgetByKeys receivingPlugin JNull = JNull
   \<and> keysOf (replaceTartgetByKeys receivingPlugin nestedCfg) = [''extensionConfig'', ''sampleRate'']
   \<and> getPath (replaceTartgetByKeys receivingPlugin nestedCfg) [''instrumentationKey''] = None
   \<and> getPath (replaceTartgetByKeys receivingPlugin nestedCfg) [''extensionConfig'', ''endpointUrl''] = None
   \<and> getPath (replaceTartgetByKeys receivingPlugin nestedCfg) [''extensionConfig'', ''sampleRate''] = Some (JNum 10)"
proof -
  have r: "nonOverrideConfigs receivingPlugin = Some defaultNonOverrideCfg" "nonOverrideConfigs plugin0 = None"
    by (simp_all add: receivingPlugin_def plugin0_def)
  have prot: "protected defaultNonOverrideCfg ''instrumentationKey''"
    "protected defaultNonOverrideCfg ''endpointUrl''"
    "\<not> protected defaultNonOverrideCfg ''extensionConfig''"
    "\<not> protected defaultNonOverrideCfg ''sampleRate''"
    by (simp_all add: protected_def defaultNonOverrideCfg_def)
  have src: "getPath nestedCfg [''extensionConfig'', ''sampleRate''] = Some (JNum 10)"
    "keysOf nestedCfg = [''instrumentationKey'', ''extensionConfig'', ''sampleRate'']"
    by (simp_all add: nestedCfg_def)
  note main = replaceTartgetByKeys_strips_protected_keys
  have "replaceTartgetByKeys plugin0 nestedCfg = JNull"
    using main [of plugin0 nestedCfg] r by simp
  moreover have "replaceTartgetByKeys receivingPlugin JNull = JNull"
    using main [of receivingPlugin JNull] by simp
  moreover have "keysOf (replaceTartgetByKeys receivingPlugin nestedCfg) = [''extensionConfig'', ''sampleRate'']"
    using main [of receivingPlugin nestedCfg] r prot src by (simp add: nestedCfg_def)
  moreover have "getPath (replaceTartgetByKeys receivingPlugin nestedCfg) [''instrumentationKey''] = None"
    using main [of receivingPlugin nestedCfg] r prot by (simp add: nestedCfg_def)
  moreover have "getPath (replaceTartgetByKeys receivingPlugin nestedCfg) [''extensionConfig'', ''endpointUrl''] = None"
    using main [of receivingPlugin nestedCfg] r prot by (simp add: nestedCfg_def)
  moreover have "getPath (replaceTartgetByKeys receivingPlugin nestedCfg) [''extensionConfig'', ''sampleRate''] = Some (JNum 10)"
    using main [of receivingPlugin nestedCfg] r prot src by (simp add: nestedCfg_def)
  ultimately show ?thesis by simp
qed

subsection \<open>Transport strategies\<close>

lemma fetchSender_settled_calls:
  "fetchSender_settled recordCall autoSync result calls =
     calls @ (case result of
                Rejected reason \<Rightarrow> []
              | Resolved r \<Rightarrow>
                  if resp_ok r then
                    [(resp_status r, case resp_text r of Resolved t \<Rightarrow> Some t | Rejected reason \<Rightarrow> None, autoSync)]
                  else [])"
  by (simp add: fetchSender_settled_def doOnComplete_def recordCall_def split: await.splits)

lemma xhrSender_calls:
  "fold (xhrSender_onreadystatechange recordCall autoSync) xs calls =
     calls @ map (\<lambda>x. (xhr_status x, Some (responseText x), autoSync)) (filter (\<lambda>x. readyState x = XHR_DONE) xs)"
  by (induction xs arbitrary: calls)
     (simp_all add: xhrSender_onreadystatechange_def doOnComplete_def recordCall_def)

text \<open>
  The XHR strategy: over ready-state changes of which the last one, and only that one,
  is the terminal state, the callback is called once, with the status and the text of that
  moment, whatever the status.
\<close>

lemma xhrSender_calls_once:
  assumes "\<forall>x \<in> set xs. readyState x \<noteq> XHR_DONE" and "readyState d = XHR_DONE"
  shows "fold (xhrSender_onreadystatechange recordCall autoSync) (xs @ [d]) [] =
           [(xhr_status d, Some (responseText d), autoSync)]"
proof -
  from assms(1) have "filter (\<lambda>x. readyState x = XHR_DONE) xs = []"
    by (simp add: filter_empty_conv)
  with assms(2) have "filter (\<lambda>x. readyState x = XHR_DONE) (xs @ [d]) = [d]"
    by simp
  then show ?thesis
    unfolding xhrSender_calls by simp
qed

text \<open>
  C2, on the code: the fetch strategy calls back after the text of an ok response was
  rejected, with the status and \<^verbatim>\<open>undefined\<close> for the body. The outer callback tests
  \<^verbatim>\<open>result.rejected\<close>; the inner one does not.
\<close>

theorem fetchSender_calls_back_after_rejected_text:
  "fetchSender_settled recordCall (Some True) (Resolved unreadableResponse) [] = [(200, None, Some True)]"
  by (simp add: fetchSender_settled_calls unreadableResponse_def)

subsection \<open>The poll timer without a transport\<close>

lemma timerCallback_without_fetchFn:
  "fetchFn p = None \<Longrightarrow> timerCallback h (p, w) = Threw TypeError (p\<lparr> timeoutHandle := None \<rparr>, w)"
  by (simp add: timerCallback_def)

lemma onConfigChange_callback_polling:
  "onConfigChange_callback h sampleCfg pollingConfig (plugin0\<lparr> evtNamespace := Some ''ns1'' \<rparr>, world0) =
     (plugin0\<lparr> extensionConfig := Some pollingConfig, isAutoSync := Some True,
              evtName := Some evtName_default, evtNamespace := Some ''ns1'', cfgUrl := Some sampleUrl,
              receiveChanges := Some False \<rparr>, world0)"
  by (simp add: onConfigChange_callback_def latchFlags_def renameEvent_def resolveEvtName_def latchUrl_def
        adoptConfig_def pollingConfig_def defaultConfig_def plugin0_def world0_def Option.is_none_def
        eventOff_internal_def eventOff_def sampleUrl_def)

lemma initialize_bareHost:
  "initialize bareHost ''ns1'' sampleCfg pollingConfig (plugin0, world0) = Returned (polling, pollingWorld)"
proof -
  have "populateDefaults bareHost sampleCfg pollingConfig (plugin0\<lparr> evtNamespace := Some ''ns1'' \<rparr>, world0)
          = Returned (polling, pollingWorld)"
    unfolding populateDefaults_def onConfigChange_callback_polling
    by (simp add: pollingConfig_def defaultConfig_def plugin0_def world0_def polling_def pollingWorld_def
          getFetchFnInterface_def bareHost_def browser_def sampleUrl_def setupTimer_def
          scheduleTimeout_def FETCH_SPAN_def Option.is_none_def)
  then show ?thesis
    by (simp add: initialize_def)
qed

text \<open>
  C4, on the code: on a host with neither \<^verbatim>\<open>fetch\<close> nor XHR and no override,
  \<^verbatim>\<open>initialize\<close> with a url returns (the first call of \<^verbatim>\<open>_fetchFn\<close> is behind a test)
  and arms the timer; the first tick calls \<^verbatim>\<open>_fetchFn\<close> without a test and throws a
  \<^verbatim>\<open>TypeError\<close>, and no timer is armed again.
\<close>

theorem timer_tick_without_transport_throws:
  "initialize bareHost ''ns1'' sampleCfg pollingConfig (plugin0, world0) = Returned (polling, pollingWorld)
   \<and> fetchFn polling = None
   \<and> timers pollingWorld = [(0, FETCH_SPAN)]
   \<and> deliver bareHost (TimerFire 0) (polling, pollingWorld)
       = Threw TypeError (polling\<lparr> timeoutHandle := None \<rparr>, pollingWorld\<lparr> timers := [] \<rparr>)"
proof -
  have none: "fetchFn polling = None"
    by (simp add: polling_def plugin0_def)
  have armed: "timers pollingWorld = [(0, FETCH_SPAN)]"
    and cancelled: "cancel 0 pollingWorld = pollingWorld\<lparr> timers := [] \<rparr>"
    by (simp_all add: pollingWorld_def world0_def cancel_def)
  have "deliver bareHost (TimerFire 0) (polling, pollingWorld) = timerCallback bareHost (polling, cancel 0 pollingWorld)"
    by (simp add: armed)
  also have "\<dots> = Threw TypeError (polling\<lparr> timeoutHandle := None \<rparr>, pollingWorld\<lparr> timers := [] \<rparr>)"
    unfolding cancelled using none by (rule timerCallback_without_fetchFn)
  finally show ?thesis
    using initialize_bareHost none armed by simp
qed

subsection \<open>Reachable states are well-formed\<close>

lemma wellformed_footprint:
  "footprint s' = footprint s \<Longrightarrow> wellformed h s \<Longrightarrow> wellformed h s'"
  by (cases s, cases s') (simp add: footprint_def wellformed_def)

lemma wellformed_start: "wellformed h (plugin0, world0)"
  by (simp add: wellformed_def world0_def)

lemma footprint_sendCfgsyncEvents: "footprint (snd (sendCfgsyncEvents h d s)) = footprint s"
  by (cases s)
     (simp add: footprint_def sendCfgsyncEvents_def sendCustomEvent_def split: option.splits sum.splits)

lemma footprint_setCfg_internal: "footprint (snd (setCfg_internal h config autoSync s)) = footprint s"
proof (cases s)
  case (Pair p w)
  have "footprint (snd (sendCfgsyncEvents h JUndefined (p\<lparr> mainConfig := config \<rparr>, w))) = footprint (p, w)"
    unfolding footprint_sendCfgsyncEvents by (simp add: footprint_def)
  then show ?thesis
    by (simp add: Pair setCfg_internal_def Let_def) (simp add: footprint_def)
qed

lemma footprint_onFetchComplete: "footprint (final (onFetchComplete h status response autoSync s)) = footprint s"
  by (simp add: onFetchComplete_def footprint_setCfg_internal split: option.splits sum.splits)

lemma footprint_fold_onFetchComplete:
  "footprint (fold (\<lambda>c. case c of (st, r, a) \<Rightarrow> \<lambda>x. final (onFetchComplete h st r a x)) calls s) = footprint s"
  by (induction calls arbitrary: s) (simp_all add: footprint_onFetchComplete split: prod.splits)

lemma footprint_callFetchFn: "footprint (final (callFetchFn h fn url autoSync s)) = footprint s"
proof (cases fn)
  case FetchSender
  then show ?thesis
    by (simp add: callFetchFn_def fetchSender_def footprint_def)
next
  case XhrSender
  then show ?thesis
    by (simp add: callFetchFn_def xhrSender_def footprint_def)
next
  case (OverrideFetch f)
  then show ?thesis
    by (simp add: callFetchFn_def Let_def footprint_fold_onFetchComplete split: prod.splits option.splits)
qed

lemma footprint_cfgEventHandler: "footprint (final (cfgEventHandler h event s)) = footprint s"
  by (cases s)
     (simp add: cfgEventHandler_def core_updateCfg_def Let_def footprint_def split: option.splits)

lemma footprint_fetchSender_settled:
  "footprint (fetchSender_settled (onFetchComplete h) autoSync result s) = footprint s"
  by (simp add: fetchSender_settled_def doOnComplete_def footprint_onFetchComplete split: await.splits)

lemma footprint_xhrSender_onreadystatechange:
  "footprint (xhrSender_onreadystatechange (onFetchComplete h) autoSync x s) = footprint s"
  by (simp add: xhrSender_onreadystatechange_def doOnComplete_def footprint_onFetchComplete)

lemma footprint_adoptConfig: "footprint (adoptConfig h config s) = footprint s"
proof (cases s)
  case (Pair p w)
  have "footprint (snd (sendCfgsyncEvents h JUndefined (p\<lparr> mainConfig := config \<rparr>, w))) = footprint (p, w)"
    unfolding footprint_sendCfgsyncEvents by (simp add: footprint_def)
  then show ?thesis
    by (simp add: Pair adoptConfig_def) (simp add: footprint_def)
qed

lemma wellformed_eventOff_internal:
  "wellformed h (p, w) \<Longrightarrow> wellformed h (p, eventOff_internal h p w)"
  by (simp add: eventOff_internal_wellformed) (simp add: wellformed_def)

lemma wellformed_updateEventListenerName_internal:
  assumes "wellformed h (p, w)"
  shows "wellformed h (snd (updateEventListenerName_internal h name (p, w)))"
proof -
  obtain b p' w' where r: "updateEventListenerName_internal h name (p, w) = (b, (p', w'))"
    by (cases "updateEventListenerName_internal h name (p, w)") auto
  have p': "p' = (if truthy_str name then p\<lparr> evtName := name \<rparr> else p)"
    using updateEventListenerName_internal_result(2) [of h name p w] by (simp add: r)
  have w': "w' = w\<lparr> listeners := (if truthy_str name \<and> truthy_flag (receiveChanges p) \<and> hasGlobal h
                            then [(name, evtNamespace p)] else []) \<rparr>"
    using updateEventListenerName_internal_world [OF assms, of name] by (simp add: r)
  from assms show ?thesis
    unfolding r by (simp add: p' w' wellformed_def)
qed

lemma wellformed_renameEvent:
  assumes "wellformed h (p, w)"
  shows "wellformed h (renameEvent h ext (p, w))"
proof -
  have "wellformed h (p\<lparr> evtName := resolveEvtName ext \<rparr>, eventOff_internal h p w)"
    using wellformed_eventOff_internal [OF assms]
    by (simp add: wellformed_def)
  with assms wellformed_updateEventListenerName_internal [OF assms, of "resolveEvtName ext"]
  show ?thesis
    by (simp add: renameEvent_def)
qed

lemma wellformed_onConfigChange_callback:
  assumes "wellformed h (p, w)"
  shows "wellformed h (onConfigChange_callback h config ext (p, w))"
proof -
  let ?p1 = "latchFlags ext (p\<lparr> extensionConfig := Some ext \<rparr>)"
  obtain p4 w4 where r: "renameEvent h ext (?p1, w) = (p4, w4)"
    by (cases "renameEvent h ext (?p1, w)")
  have "footprint (?p1, w) = footprint (p, w)"
    by (simp add: footprint_def latchFlags_def Let_def)
  then have "wellformed h (?p1, w)"
    using assms by (rule wellformed_footprint)
  then have p4: "wellformed h (p4, w4)"
    using wellformed_renameEvent [of h ?p1 w ext] by (simp add: r)
  have "footprint (latchUrl ext p4, w4) = footprint (p4, w4)"
    by (simp add: footprint_def latchUrl_def)
  then have "wellformed h (latchUrl ext p4, w4)"
    using p4 by (rule wellformed_footprint)
  with footprint_adoptConfig have "wellformed h (adoptConfig h config (latchUrl ext p4, w4))"
    by (rule wellformed_footprint)
  then show ?thesis
    by (simp add: onConfigChange_callback_def r)
qed

lemma wellformed_setupTimer:
  assumes "wellformed h s"
  shows "wellformed h (setupTimer s)"
proof (cases s)
  case (Pair p w)
  show ?thesis
  proof (cases "Option.is_none (timeoutHandle p) \<and> truthy_num (fetchSpan p)")
    case False
    with assms Pair show ?thesis
      by (auto simp: setupTimer_def)
  next
    case True
    then obtain delay where d: "fetchSpan p = Some delay"
      by (cases "fetchSpan p") auto
    from True assms Pair have "timers w = []"
      by (cases "timers w") (auto simp: wellformed_def Option.is_none_def)
    with True assms Pair d show ?thesis
      by (simp add: setupTimer_def scheduleTimeout_def wellformed_def)
  qed
qed

lemma wellformed_clearScheduledTimer:
  assumes "wellformed h s"
  shows "wellformed h (clearScheduledTimer s)"
    and "timers (snd (clearScheduledTimer s)) = []"
    and "listeners (snd (clearScheduledTimer s)) = listeners (snd s)"
proof -
  obtain p w where s: "s = (p, w)" by (cases s)
  have t: "timers (snd (clearScheduledTimer s)) = []"
  proof (cases "timeoutHandle p")
    case None
    with assms s show ?thesis
      by (cases "timers w") (auto simp: clearScheduledTimer_def wellformed_def)
  next
    case (Some t)
    with assms s have "filter (\<lambda>r. fst r \<noteq> t) (timers w) = []"
      by (auto simp: wellformed_def filter_empty_conv)
    with Some s show ?thesis
      by (simp add: clearScheduledTimer_def cancel_def)
  qed
  show l: "listeners (snd (clearScheduledTimer s)) = listeners (snd s)"
    by (simp add: s clearScheduledTimer_def cancel_def split: option.splits)
  show "timers (snd (clearScheduledTimer s)) = []" by (rule t)
  have "evtNamespace (fst (clearScheduledTimer s)) = evtNamespace (fst s)"
    by (simp add: s clearScheduledTimer_def)
  with assms t l show "wellformed h (clearScheduledTimer s)"
    by (cases "clearScheduledTimer s") (simp add: s wellformed_def)
qed

lemma wellformed_timerCallback:
  assumes "wellformed h (p, w)" and "t \<in> fst ` set (timers w)"
  shows "wellformed h (final (timerCallback h (p, cancel t w)))"
proof -
  let ?p1 = "p\<lparr> timeoutHandle := None \<rparr>"
  from assms(2) obtain d where "(t, d) \<in> set (timers w)"
    by auto
  with assms(1) have "timeoutHandle p = Some t"
    by (fastforce simp: wellformed_def)
  with assms(1) have "\<forall>r \<in> set (timers w). fst r = t"
    by (auto simp: wellformed_def)
  then have "filter (\<lambda>r. fst r \<noteq> t) (timers w) = []"
    by (simp add: filter_empty_conv)
  with assms(1) have start: "wellformed h (?p1, cancel t w)"
    by (simp add: wellformed_def cancel_def)
  show ?thesis
  proof (cases "fetchFn p")
    case None
    with start show ?thesis
      by (simp add: timerCallback_def)
  next
    case (Some fn)
    have called: "wellformed h (final (callFetchFn h fn (cfgUrl ?p1) (isAutoSync ?p1) (?p1, cancel t w)))"
      using footprint_callFetchFn start by (rule wellformed_footprint)
    show ?thesis
    proof (cases "callFetchFn h fn (cfgUrl ?p1) (isAutoSync ?p1) (?p1, cancel t w)")
      case (Returned s')
      with called have "wellformed h (setupTimer s')"
        by (simp add: wellformed_setupTimer)
      with Some Returned show ?thesis
        by (simp add: timerCallback_def)
    next
      case (Threw e s')
      with called Some show ?thesis
        by (simp add: timerCallback_def)
    qed
  qed
qed

text \<open>Every callback of the host keeps a well-formed state well-formed.\<close>

lemma wellformed_deliver:
  assumes "wellformed h s"
  shows "wellformed h (final (deliver h cb s))"
proof (cases s)
  case (Pair p w)
  show ?thesis
  proof (cases cb)
    case (TimerFire t)
    with assms Pair show ?thesis
      using wellformed_timerCallback [of h p w t] by simp
  next
    case (BusDeliver k event)
    have "wellformed h (final (cfgEventHandler h event s))"
      using footprint_cfgEventHandler assms by (rule wellformed_footprint)
    with assms Pair BusDeliver show ?thesis
      by simp
  next
    case (FetchSettled k result)
    have "footprint (p, w\<lparr> requests := remove_nth k (requests w) \<rparr>) = footprint (p, w)"
      by (simp add: footprint_def)
    then have "wellformed h (p, w\<lparr> requests := remove_nth k (requests w) \<rparr>)"
      using assms unfolding Pair by (rule wellformed_footprint)
    with footprint_fetchSender_settled
    have "wellformed h (fetchSender_settled (onFetchComplete h) (snd (snd (requests w ! k))) result
                         (p, w\<lparr> requests := remove_nth k (requests w) \<rparr>))"
      by (rule wellformed_footprint)
    with assms Pair FetchSettled show ?thesis
      by simp
  next
    case (XhrReadyStateChange k x)
    let ?w = "if readyState x = XHR_DONE then w\<lparr> requests := remove_nth k (requests w) \<rparr> else w"
    have "footprint (p, ?w) = footprint (p, w)"
      by (simp add: footprint_def)
    then have "wellformed h (p, ?w)"
      using assms unfolding Pair by (rule wellformed_footprint)
    with footprint_xhrSender_onreadystatechange
    have "wellformed h (xhrSender_onreadystatechange (onFetchComplete h) (snd (snd (requests w ! k))) x (p, ?w))"
      by (rule wellformed_footprint)
    with assms Pair XhrReadyStateChange show ?thesis
      by simp
  qed
qed

text \<open>So do the public operations.\<close>

lemma wellformed_setCfg: "wellformed h s \<Longrightarrow> wellformed h (snd (setCfg h config s))"
  unfolding setCfg_def using footprint_setCfg_internal by (rule wellformed_footprint)

lemma wellformed_sync: "wellformed h s \<Longrightarrow> wellformed h (snd (sync h d s))"
  unfolding sync_def using footprint_sendCfgsyncEvents by (rule wellformed_footprint)

lemma wellformed_updateEventListenerName:
  "wellformed h (p, w) \<Longrightarrow> wellformed h (snd (updateEventListenerName h name (p, w)))"
  by (simp add: updateEventListenerName_def wellformed_updateEventListenerName_internal)

text \<open>\<^verbatim>\<open>initialize\<close>, on a plugin without subscriptions (a new one, or one torn down).\<close>

lemma wellformed_initialize:
  assumes "wellformed h (p, w)" and "listeners w = []"
  shows "wellformed h (final (initialize h ns config ext (p, w)))"
proof -
  let ?p0 = "p\<lparr> evtNamespace := Some ns \<rparr>"
  from assms have "wellformed h (?p0, w)"
    by (simp add: wellformed_def)
  then have cb: "wellformed h (onConfigChange_callback h config ext (?p0, w))"
    by (rule wellformed_onConfigChange_callback)
  obtain p1 w1 where r: "onConfigChange_callback h config ext (?p0, w) = (p1, w1)"
    by (cases "onConfigChange_callback h config ext (?p0, w)")
  show ?thesis
  proof (cases "extensionConfig p1")
    case None
    with cb r show ?thesis
      by (simp add: initialize_def populateDefaults_def)
  next
    case (Some e)
    let ?p2 = "p1\<lparr> overrideSyncFn := ext_overrideSyncFn e, overrideFetchFn := ext_overrideFetchFn e,
                     onCfgChangeReceive := ext_onCfgChangeReceive e,
                     nonOverrideConfigs := ext_nonOverrideConfigs e, fetchSpan := scheduleFetchTimeout e \<rparr>"
    let ?p3 = "?p2\<lparr> fetchFn := getFetchFnInterface h ?p2 \<rparr>"
    have f2: "footprint (?p2, w1) = footprint (p1, w1)" and f3: "footprint (?p3, w1) = footprint (p1, w1)"
      by (simp_all add: footprint_def)
    from cb r have p1: "wellformed h (p1, w1)"
      by simp
    have p2: "wellformed h (?p2, w1)"
      using f2 p1 by (rule wellformed_footprint)
    have p3: "wellformed h (?p3, w1)"
      using f3 p1 by (rule wellformed_footprint)
    have pd: "populateDefaults h config ext (?p0, w) =
            (if truthy_str (cfgUrl ?p2) then
               (case fetchFn ?p3 of
                  None \<Rightarrow> Returned (setupTimer (?p3, w1))
                | Some fn \<Rightarrow>
                    (case callFetchFn h fn (cfgUrl ?p3) (isAutoSync ?p3) (?p3, w1) of
                       Threw err s' \<Rightarrow> Threw err s'
                     | Returned s' \<Rightarrow> Returned (setupTimer s')))
             else Returned (?p2, w1))"
      by (simp add: populateDefaults_def r Some Let_def)
    show ?thesis
    proof (cases "truthy_str (cfgUrl ?p2)")
      case False
      with p2 show ?thesis
        by (simp add: initialize_def pd)
    next
      case url: True
      show ?thesis
      proof (cases "fetchFn ?p3")
        case None
        with url wellformed_setupTimer [OF p3] show ?thesis
          by (simp add: initialize_def pd)
      next
        case (Some fn)
        have called: "wellformed h (final (callFetchFn h fn (cfgUrl ?p3) (isAutoSync ?p3) (?p3, w1)))"
          using footprint_callFetchFn p3 by (rule wellformed_footprint)
        show ?thesis
        proof (cases "callFetchFn h fn (cfgUrl ?p3) (isAutoSync ?p3) (?p3, w1)")
          case (Returned s')
          with called have "wellformed h (setupTimer s')"
            by (simp add: wellformed_setupTimer)
          with url Some Returned show ?thesis
            by (simp add: initialize_def pd)
        next
          case (Threw err s')
          with called url Some show ?thesis
            by (simp add: initialize_def pd)
        qed
      qed
    qed
  qed
qed

subsection \<open>Teardown\<close>

lemma initDefaults_timeoutHandle: "initDefaults (p\<lparr> timeoutHandle := None \<rparr>) = initDefaults p"
  by (simp add: initDefaults_def)

lemma doTeardown_wellformed:
  assumes "wellformed h (p, w)"
  shows "doTeardown h (p, w) = (initDefaults p, w\<lparr> listeners := [], timers := [] \<rparr>)"
proof -
  let ?w1 = "w\<lparr> listeners := [] \<rparr>"
  have off: "eventOff_internal h p w = ?w1"
    using assms by (rule eventOff_internal_wellformed)
  from assms have wf1: "wellformed h (p, ?w1)"
    by (simp add: wellformed_def)
  have "timers (snd (clearScheduledTimer (p, ?w1))) = []"
    using wf1 by (rule wellformed_clearScheduledTimer(2))
  then have "snd (clearScheduledTimer (p, ?w1)) = w\<lparr> listeners := [], timers := [] \<rparr>"
    by (simp add: clearScheduledTimer_def cancel_def split: option.splits)
  moreover have "fst (clearScheduledTimer (p, ?w1)) = p\<lparr> timeoutHandle := None \<rparr>"
    by (simp add: clearScheduledTimer_def)
  ultimately have "clearScheduledTimer (p, ?w1) = (p\<lparr> timeoutHandle := None \<rparr>, w\<lparr> listeners := [], timers := [] \<rparr>)"
    by (simp add: prod_eq_iff)
  then show ?thesis
    by (simp add: doTeardown_def off initDefaults_timeoutHandle)
qed

lemma setCfg_internal_plugin:
  "(fst (snd (setCfg_internal h config autoSync (p, w))))\<lparr> mainConfig := m \<rparr> = p\<lparr> mainConfig := m \<rparr>"
  by (simp add: setCfg_internal_def Let_def)

lemma onFetchComplete_plugin:
  "(fst (final (onFetchComplete h status response autoSync (p, w))))\<lparr> mainConfig := m \<rparr> = p\<lparr> mainConfig := m \<rparr>"
  by (simp add: onFetchComplete_def setCfg_internal_plugin split: option.splits sum.splits)

lemma onFetchComplete_out_of_range:
  "\<not> (200 \<le> status \<and> status < 400) \<Longrightarrow> onFetchComplete h status response autoSync s = Returned s"
  by (auto simp: onFetchComplete_def)

text \<open>What a response or a ready-state change can do to a plugin whose snapshot is \<open>m\<close>.\<close>

lemma fetchSender_settled_plugin:
  "(fst (fetchSender_settled (onFetchComplete h) autoSync result (p, w)))\<lparr> mainConfig := m \<rparr> = p\<lparr> mainConfig := m \<rparr>"
  by (simp add: fetchSender_settled_def doOnComplete_def onFetchComplete_plugin split: await.splits)

lemma xhrSender_onreadystatechange_plugin:
  "(fst (xhrSender_onreadystatechange (onFetchComplete h) autoSync x (p, w)))\<lparr> mainConfig := m \<rparr> = p\<lparr> mainConfig := m \<rparr>"
  by (simp add: xhrSender_onreadystatechange_def doOnComplete_def onFetchComplete_plugin)

lemma deliver_quiet:
  assumes "listeners w = []" and "timers w = []"
  shows "deliver h (TimerFire t) (p, w) = Returned (p, w)"
    and "deliver h (BusDeliver k event) (p, w) = Returned (p, w)"
    and "\<not> threw (deliver h cb (p, w))"
    and "(fst (final (deliver h cb (p, w))))\<lparr> mainConfig := m \<rparr> = p\<lparr> mainConfig := m \<rparr>"
proof -
  show t: "deliver h (TimerFire t) (p, w) = Returned (p, w)" for t
    using assms by simp
  show b: "deliver h (BusDeliver k event) (p, w) = Returned (p, w)" for k event
    using assms by simp
  show "\<not> threw (deliver h cb (p, w))"
    using assms by (cases cb) simp_all
  show "(fst (final (deliver h cb (p, w))))\<lparr> mainConfig := m \<rparr> = p\<lparr> mainConfig := m \<rparr>"
    using assms
    by (cases cb) (simp_all add: fetchSender_settled_plugin xhrSender_onreadystatechange_plugin)
qed

lemma initialize_browser:
  "initialize browser ''ns1'' sampleCfg pollingConfig (plugin0, world0) = Returned (fetching, fetchingWorld)"
proof -
  have "populateDefaults browser sampleCfg pollingConfig (plugin0\<lparr> evtNamespace := Some ''ns1'' \<rparr>, world0)
          = Returned (fetching, fetchingWorld)"
    unfolding populateDefaults_def onConfigChange_callback_polling
    by (simp add: pollingConfig_def defaultConfig_def plugin0_def world0_def polling_def pollingWorld_def
          fetching_def fetchingWorld_def getFetchFnInterface_def browser_def sampleUrl_def
          callFetchFn_def fetchSender_def setupTimer_def scheduleTimeout_def FETCH_SPAN_def
          Option.is_none_def)
  then show ?thesis
    by (simp add: initialize_def)
qed

lemma wellformed_fetching: "wellformed browser (fetching, fetchingWorld)"
  by (simp add: wellformed_def fetching_def polling_def plugin0_def fetchingWorld_def pollingWorld_def world0_def)

text \<open>
  C1, as stated, fails: the plugin is initialized with a url in a browser, torn down
  while the first request is in flight, and the response arrives with status 200 and the
  body \<^verbatim>\<open>{}\<close>: the snapshot, reset to \<^verbatim>\<open>null\<close> by teardown, becomes the empty object,
  and an event is sent on the bus.
\<close>

theorem response_after_teardown_counterexample:
  "initialize browser ''ns1'' sampleCfg pollingConfig (plugin0, world0) = Returned (fetching, fetchingWorld)
   \<and> mainConfig (fst (doTeardown browser (fetching, fetchingWorld))) = JNull
   \<and> mainConfig (fst (final (deliver browser (FetchSettled 0 (Resolved emptyObjectResponse))
                               (doTeardown browser (fetching, fetchingWorld))))) = JObj []
   \<and> emitted (snd (final (deliver browser (FetchSettled 0 (Resolved emptyObjectResponse))
                             (doTeardown browser (fetching, fetchingWorld))))) = [(None, JObj [], JUndefined)]"
proof -
  let ?torn = "(initDefaults fetching, fetchingWorld\<lparr> listeners := [], timers := [] \<rparr>)"
  have torn: "doTeardown browser (fetching, fetchingWorld) = ?torn"
    using wellformed_fetching by (rule doTeardown_wellformed)
  have json: "hostJSON browser = Some sampleJSON" "sampleJSON ''{}'' = Inr (JObj [])"
    by (simp_all add: browser_def sampleJSON_def)
  have late: "final (deliver browser (FetchSettled 0 (Resolved emptyObjectResponse)) ?torn)
          = ((initDefaults fetching)\<lparr> mainConfig := JObj [] \<rparr>,
             fetchingWorld\<lparr> listeners := [], timers := [], requests := [],
                            emitted := [(None, JObj [], JUndefined)] \<rparr>)"
    by (simp add: fetchingWorld_def pollingWorld_def world0_def remove_nth_def emptyObjectResponse_def
          fetchSender_settled_def doOnComplete_def onFetchComplete_def json setCfg_internal_def
          sendCfgsyncEvents_def sendCustomEvent_def initDefaults_def browser_def)
  show ?thesis
    unfolding torn late using initialize_browser
    by (simp add: initDefaults_def)
qed

text \<open>
  C1, amended. From a well-formed state, \<^verbatim>\<open>teardown\<close> resets the twelve variables,
  cancels the timer and removes the listener: afterwards no timer callback and no bus
  handler runs. A response that arrives afterwards still runs its callback; whatever
  callback the host delivers, nothing is thrown, no variable of the plugin other than
  the snapshot changes, no timer is armed and no listener subscribed; a response with a
  status outside [200,400) changes nothing of the plugin, and an ok response in that range
  whose body parses to a truthy document makes that document the snapshot.
\<close>

theorem teardown_leaves_only_responses:
  assumes "wellformed h (p, w)"
  shows "doTeardown h (p, w) = (initDefaults p, w\<lparr> listeners := [], timers := [] \<rparr>)
    \<and> (\<forall>t. deliver h (TimerFire t) (doTeardown h (p, w)) = Returned (doTeardown h (p, w)))
    \<and> (\<forall>k event. deliver h (BusDeliver k event) (doTeardown h (p, w)) = Returned (doTeardown h (p, w)))
    \<and> (\<forall>cb. \<not> threw (deliver h cb (doTeardown h (p, w)))
          \<and> (fst (final (deliver h cb (doTeardown h (p, w)))))\<lparr> mainConfig := JNull \<rparr> = initDefaults p
          \<and> listeners (snd (final (deliver h cb (doTeardown h (p, w))))) = []
          \<and> timers (snd (final (deliver h cb (doTeardown h (p, w))))) = [])
    \<and> (\<forall>k r. \<not> (200 \<le> resp_status r \<and> resp_status r < 400) \<longrightarrow>
          fst (final (deliver h (FetchSettled k (Resolved r)) (doTeardown h (p, w)))) = initDefaults p)
    \<and> (\<forall>k x. \<not> (200 \<le> xhr_status x \<and> xhr_status x < 400) \<longrightarrow>
          fst (final (deliver h (XhrReadyStateChange k x) (doTeardown h (p, w)))) = initDefaults p)
    \<and> (\<forall>k r body parse cfg.
          k < length (requests w) \<and> fst (requests w ! k) = ViaFetch \<and> resp_ok r
          \<and> 200 \<le> resp_status r \<and> resp_status r < 400 \<and> resp_text r = Resolved body \<and> body \<noteq> []
          \<and> hostJSON h = Some parse \<and> parse body = Inr cfg \<and> truthy cfg \<longrightarrow>
          mainConfig (fst (final (deliver h (FetchSettled k (Resolved r)) (doTeardown h (p, w))))) = cfg)"
proof -
  let ?w = "w\<lparr> listeners := [], timers := [] \<rparr>"
  have torn: "doTeardown h (p, w) = (initDefaults p, ?w)"
    using assms by (rule doTeardown_wellformed)
  have quiet: "listeners ?w = []" "timers ?w = []"
    by simp_all
  have reset: "(initDefaults p)\<lparr> mainConfig := JNull \<rparr> = initDefaults p"
    by (simp add: initDefaults_def)
  have foot: "footprint (final (deliver h cb (initDefaults p, ?w))) = footprint (initDefaults p, ?w)" for cb
    by (cases cb)
       (simp_all add: deliver_quiet(1,2) [OF quiet] footprint_fetchSender_settled
          footprint_xhrSender_onreadystatechange, simp_all add: footprint_def)
  have any: "\<not> threw (deliver h cb (initDefaults p, ?w))
      \<and> (fst (final (deliver h cb (initDefaults p, ?w))))\<lparr> mainConfig := JNull \<rparr> = initDefaults p
      \<and> listeners (snd (final (deliver h cb (initDefaults p, ?w)))) = []
      \<and> timers (snd (final (deliver h cb (initDefaults p, ?w)))) = []" for cb
    using foot [of cb]
    by (simp add: deliver_quiet(3,4) [OF quiet] reset footprint_def)
  have fetch: "fst (final (deliver h (FetchSettled k (Resolved r)) (initDefaults p, ?w))) = initDefaults p"
    if "\<not> (200 \<le> resp_status r \<and> resp_status r < 400)" for k r
    using that
    by (simp add: fetchSender_settled_def doOnComplete_def onFetchComplete_out_of_range split: await.splits)
  have xhr: "fst (final (deliver h (XhrReadyStateChange k x) (initDefaults p, ?w))) = initDefaults p"
    if "\<not> (200 \<le> xhr_status x \<and> xhr_status x < 400)" for k x
    using that
    by (simp add: xhrSender_onreadystatechange_def doOnComplete_def onFetchComplete_out_of_range)
  have accepted: "mainConfig (fst (final (deliver h (FetchSettled k (Resolved r)) (initDefaults p, ?w)))) = cfg"
    if "k < length (requests w) \<and> fst (requests w ! k) = ViaFetch \<and> resp_ok r
          \<and> 200 \<le> resp_status r \<and> resp_status r < 400 \<and> resp_text r = Resolved body \<and> body \<noteq> []
          \<and> hostJSON h = Some parse \<and> parse body = Inr cfg \<and> truthy cfg" for k r body parse cfg
  proof -
    let ?s = "(initDefaults p, ?w\<lparr> requests := remove_nth k (requests ?w) \<rparr>)"
    let ?a = "snd (snd (requests ?w ! k))"
    from that have "onFetchComplete h (resp_status r) (Some body) ?a ?s = Returned (snd (setCfg_internal h cfg ?a ?s))"
      by (intro onFetchComplete_accepted [where body = body and parse = parse]) simp_all
    with that have "fetchSender_settled (onFetchComplete h) ?a (Resolved r) ?s = snd (setCfg_internal h cfg ?a ?s)"
      by (simp add: fetchSender_settled_def doOnComplete_def)
    moreover from that have "mainConfig (fst (snd (setCfg_internal h cfg ?a ?s))) = cfg"
      by (simp add: setCfg_internal_mainConfig)
    ultimately show ?thesis
      using that by simp
  qed
  have c1: "\<forall>t. deliver h (TimerFire t) (initDefaults p, ?w) = Returned (initDefaults p, ?w)"
    and c2: "\<forall>k event. deliver h (BusDeliver k event) (initDefaults p, ?w) = Returned (initDefaults p, ?w)"
    by (simp_all add: deliver_quiet(1,2) [OF quiet])
  have c3: "\<forall>cb. \<not> threw (deliver h cb (initDefaults p, ?w))
      \<and> (fst (final (deliver h cb (initDefaults p, ?w))))\<lparr> mainConfig := JNull \<rparr> = initDefaults p
      \<and> listeners (snd (final (deliver h cb (initDefaults p, ?w)))) = []
      \<and> timers (snd (final (deliver h cb (initDefaults p, ?w)))) = []"
    using any by (rule allI)
  have c4: "\<forall>k r. \<not> (200 \<le> resp_status r \<and> resp_status r < 400) \<longrightarrow>
          fst (final (deliver h (FetchSettled k (Resolved r)) (initDefaults p, ?w))) = initDefaults p"
    using fetch by blast
  have c5: "\<forall>k x. \<not> (200 \<le> xhr_status x \<and> xhr_status x < 400) \<longrightarrow>
          fst (final (deliver h (XhrReadyStateChange k x) (initDefaults p, ?w))) = initDefaults p"
    using xhr by blast
  have c6: "\<forall>k r body parse cfg.
          k < length (requests w) \<and> fst (requests w ! k) = ViaFetch \<and> resp_ok r
          \<and> 200 \<le> resp_status r \<and> resp_status r < 400 \<and> resp_text r = Resolved body \<and> body \<noteq> []
          \<and> hostJSON h = Some parse \<and> parse body = Inr cfg \<and> truthy cfg \<longrightarrow>
          mainConfig (fst (final (deliver h (FetchSettled k (Resolved r)) (initDefaults p, ?w)))) = cfg"
    using accepted by blast
  show ?thesis
    unfolding torn by (intro conjI refl c1 c2 c3 c4 c5 c6)
qed

theorem teardown_leaves_only_responses_witness:
  "wellformed browser (fetching, fetchingWorld)
   \<and> doTeardown browser (fetching, fetchingWorld) = (initDefaults fetching, fetchingWorld\<lparr> listeners := [], timers := [] \<rparr>)
   \<and> timers fetchingWorld = [(0, FETCH_SPAN)]
   \<and> deliver browser (TimerFire 0) (doTeardown browser (fetching, fetchingWorld))
       = Returned (doTeardown browser (fetching, fetchingWorld))
   \<and> fst (final (deliver browser (FetchSettled 0 (Resolved (emptyObjectResponse\<lparr> resp_status := 404 \<rparr>)))
                    (doTeardown browser (fetching, fetchingWorld)))) = initDefaults fetching
   \<and> mainConfig (fst (final (deliver browser (FetchSettled 0 (Resolved emptyObjectResponse))
                                 (doTeardown browser (fetching, fetchingWorld))))) = JObj []"
proof -
  note after = teardown_leaves_only_responses [OF wellformed_fetching]
  have "0 < length (requests fetchingWorld) \<and> fst (requests fetchingWorld ! 0) = ViaFetch
      \<and> resp_ok emptyObjectResponse \<and> 200 \<le> resp_status emptyObjectResponse
      \<and> resp_status emptyObjectResponse < 400 \<and> resp_text emptyObjectResponse = Resolved ''{}''
      \<and> ''{}'' \<noteq> [] \<and> hostJSON browser = Some sampleJSON \<and> sampleJSON ''{}'' = Inr (JObj [])
      \<and> truthy (JObj [])"
    by (simp add: fetchingWorld_def pollingWorld_def world0_def emptyObjectResponse_def browser_def sampleJSON_def)
  then have written: "mainConfig (fst (final (deliver browser (FetchSettled 0 (Resolved emptyObjectResponse))
                                 (doTeardown browser (fetching, fetchingWorld))))) = JObj []"
    using after [THEN conjunct2, THEN conjunct2, THEN conjunct2, THEN conjunct2, THEN conjunct2,
                 THEN conjunct2, rule_format]
    by blast
  have torn: "doTeardown browser (fetching, fetchingWorld)
      = (initDefaults fetching, fetchingWorld\<lparr> listeners := [], timers := [] \<rparr>)"
    using after by (rule conjunct1)
  have timer: "deliver browser (TimerFire 0) (doTeardown browser (fetching, fetchingWorld))
       = Returned (doTeardown browser (fetching, fetchingWorld))"
    using after [THEN conjunct2, THEN conjunct1] by (rule spec)
  have "\<not> (200 \<le> resp_status (emptyObjectResponse\<lparr> resp_status := 404 \<rparr>)
           \<and> resp_status (emptyObjectResponse\<lparr> resp_status := 404 \<rparr>) < 400)"
    by simp
  then have late: "fst (final (deliver browser (FetchSettled 0 (Resolved (emptyObjectResponse\<lparr> resp_status := 404 \<rparr>)))
                    (doTeardown browser (fetching, fetchingWorld)))) = initDefaults fetching"
    using after [THEN conjunct2, THEN conjunct2, THEN conjunct2, THEN conjunct2, THEN conjunct1, rule_format]
    by blast
  have armed: "timers fetchingWorld = [(0, FETCH_SPAN)]"
    by (simp add: fetchingWorld_def pollingWorld_def world0_def)
  from wellformed_fetching torn armed timer late written show ?thesis
    by simp
qed

subsection \<open>The invariant of a run\<close>

lemma wellformed_doTeardown:
  assumes "wellformed h s"
  shows "wellformed h (doTeardown h s)"
proof (cases s)
  case (Pair p w)
  with assms have "doTeardown h s = (initDefaults p, w\<lparr> listeners := [], timers := [] \<rparr>)"
    by (simp add: doTeardown_wellformed)
  then show ?thesis
    by (simp add: wellformed_def)
qed

text \<open>Every reachable state is well-formed.\<close>

lemma reachable_wellformed: "reachable h s \<Longrightarrow> wellformed h s"
proof (induction rule: reachable.induct)
  case constructed
  show ?case by (rule wellformed_start)
next
  case (initialized p w ns config ext)
  then show ?case by (simp add: wellformed_initialize)
next
  case (configChanged s config ext)
  then show ?case by (cases s) (simp add: wellformed_onConfigChange_callback)
next
  case (setCfgCalled s config)
  then show ?case by (simp add: wellformed_setCfg)
next
  case (syncCalled s d)
  then show ?case by (simp add: wellformed_sync)
next
  case (renamed s name)
  then show ?case by (cases s) (simp add: wellformed_updateEventListenerName)
next
  case (calledBack s cb)
  then show ?case by (simp add: wellformed_deliver)
next
  case (tornDown s)
  then show ?case by (simp add: wellformed_doTeardown)
qed

end
